theory Spec2Isabelle
  imports Complex_Main "HOL-Library.AList" "HOL-Library.Word"
begin

section \<open>Data model of the NameNode (namenode.py)\<close>

text \<open>
  Python dictionaries keep insertion order, and the placement policy depends on the order
  of \<open>self.datanodes.values()\<close>. A dictionary is therefore an association list:
  \<open>d[k] = v\<close> is \<open>AList.update k v d\<close> (replace in place, or append a new key at
  the end), \<open>k in d\<close> is \<open>k \<in> set (map fst d)\<close>, \<open>d[k]\<close> is \<open>map_of d k\<close>
  and \<open>del d[k]\<close> is \<open>AList.delete k d\<close>.

  \<open>time.time()\<close> is the parameter \<open>now\<close> of every operation: one reading of the clock
  per request or per pass of a background thread.
\<close>

type_synonym bytes = "8 word list"

record FileMetadata =
  f_filename :: string
  f_size :: int
  f_chunk_size :: int
  f_replication_factor :: int
  f_created_at :: real
  f_chunks :: "(int \<times> string list) list"

record DataNodeInfo =
  node_id :: string
  host :: string
  port :: int
  last_heartbeat :: real
  dn_chunks :: "string set"
  available_space :: int
  total_space :: int
  is_alive :: bool

record NameNode =
  chunk_size :: int
  replication_factor :: int
  files :: "(string \<times> FileMetadata) list"
  datanodes :: "(string \<times> DataNodeInfo) list"

text \<open>The dictionary \<open>{'node_id': .., 'host': .., 'port': ..}\<close> sent to clients.\<close>

record node_entry =
  e_node_id :: string
  e_host :: string
  e_port :: int

text \<open>
  Error responses \<open>{'status': 'error', 'message': ...}\<close>, one constructor per message
  of the source:
  \<^item> \<open>InsufficientDataNodes need found\<close>: "Insufficient DataNodes. Need .., found .."
    (the spec's InsufficientCapacity);
  \<^item> \<open>FileNotFound name\<close>: "File not found: .." (NotFound);
  \<^item> \<open>NoHealthyDataNodes chunk\<close>: "No healthy DataNodes for chunk .." (UnrecoverableChunk);
  \<^item> \<open>DataNodeNotRegistered\<close>: "DataNode not registered" (UnknownNode);
  \<^item> \<open>UnknownCommandError\<close>: "Unknown command: ..";
  \<^item> \<open>PyException\<close>: an exception caught by \<open>handle_client\<close> (Internal).
\<close>

datatype py_exception = ZeroDivisionError | ValueError

datatype error =
    InsufficientDataNodes int nat
  | FileNotFound string
  | NoHealthyDataNodes int
  | DataNodeNotRegistered
  | UnknownCommandError string
  | PyException py_exception

datatype response =
    SuccessMsg string
  | Success
  | Error error
  | UploadInitOk int int "(int \<times> node_entry list) list"
  | DownloadInitOk string int int "(int \<times> node_entry list) list"
  | ListFilesOk "(string \<times> int \<times> nat \<times> real) list"
  | FileInfoOk FileMetadata
  | ClusterStatusOk "DataNodeInfo list" nat int

datatype request =
    RegisterDatanode string string int
  | Heartbeat string int int "string list"
  | UploadInit string int
  | UploadComplete string int "(int option \<times> string list) list"
  | DownloadInit string
  | ListFiles
  | DeleteFile string
  | FileInfo string
  | ClusterStatus
  | OtherCommand string

subsection \<open>FileMetadata\<close>

definition new_FileMetadata :: "real \<Rightarrow> string \<Rightarrow> int \<Rightarrow> int \<Rightarrow> int \<Rightarrow> FileMetadata" where
  "new_FileMetadata now name sz cs rf =
     \<lparr>f_filename = name, f_size = sz, f_chunk_size = cs, f_replication_factor = rf,
      f_created_at = now, f_chunks = []\<rparr>"

definition add_chunk_location :: "int \<Rightarrow> string \<Rightarrow> FileMetadata \<Rightarrow> FileMetadata" where
  "add_chunk_location chunk_id datanode_id m =
     (case map_of (f_chunks m) chunk_id of
        None \<Rightarrow> m\<lparr>f_chunks := AList.update chunk_id [datanode_id] (f_chunks m)\<rparr>
      | Some locs \<Rightarrow>
          if datanode_id \<in> set locs then m
          else m\<lparr>f_chunks := AList.update chunk_id (locs @ [datanode_id]) (f_chunks m)\<rparr>)"

text \<open>\<open>list.remove\<close> deletes the first occurrence only: \<open>remove1\<close>.\<close>

definition remove_chunk_location :: "int \<Rightarrow> string \<Rightarrow> FileMetadata \<Rightarrow> FileMetadata" where
  "remove_chunk_location chunk_id datanode_id m =
     (case map_of (f_chunks m) chunk_id of
        None \<Rightarrow> m
      | Some locs \<Rightarrow>
          if datanode_id \<in> set locs
          then m\<lparr>f_chunks := AList.update chunk_id (remove1 datanode_id locs) (f_chunks m)\<rparr>
          else m)"

definition is_under_replicated :: "FileMetadata \<Rightarrow> int list" where
  "is_under_replicated m =
     map fst (filter (\<lambda>(chunk_id, locs). int (length locs) < f_replication_factor m) (f_chunks m))"

subsection \<open>DataNodeInfo\<close>

definition new_DataNodeInfo :: "real \<Rightarrow> string \<Rightarrow> string \<Rightarrow> int \<Rightarrow> DataNodeInfo" where
  "new_DataNodeInfo now nid h p =
     \<lparr>node_id = nid, host = h, port = p, last_heartbeat = now, dn_chunks = {},
      available_space = 0, total_space = 0, is_alive = True\<rparr>"

definition update_heartbeat :: "real \<Rightarrow> int \<Rightarrow> int \<Rightarrow> string list \<Rightarrow> DataNodeInfo \<Rightarrow> DataNodeInfo" where
  "update_heartbeat now avail tot chunks n =
     n\<lparr>last_heartbeat := now, available_space := avail, total_space := tot,
       dn_chunks := set chunks, is_alive := True\<rparr>"

text \<open>\<open>is_healthy(timeout=30)\<close>; every caller uses the default timeout.\<close>

definition is_healthy :: "real \<Rightarrow> DataNodeInfo \<Rightarrow> bool" where
  "is_healthy now n \<longleftrightarrow> now - last_heartbeat n < 30"

subsection \<open>NameNode\<close>

definition new_NameNode :: "int \<Rightarrow> int \<Rightarrow> NameNode" where
  "new_NameNode cs rf = \<lparr>chunk_size = cs, replication_factor = rf, files = [], datanodes = []\<rparr>"

definition register_datanode :: "real \<Rightarrow> string \<Rightarrow> string \<Rightarrow> int \<Rightarrow> NameNode \<Rightarrow> response \<times> NameNode" where
  "register_datanode now nid h p s =
     (if nid \<notin> set (map fst (datanodes s))
      then (SuccessMsg ''DataNode registered'',
            s\<lparr>datanodes := AList.update nid (new_DataNodeInfo now nid h p) (datanodes s)\<rparr>)
      else (SuccessMsg ''DataNode already registered'', s))"

definition handle_heartbeat :: "real \<Rightarrow> string \<Rightarrow> int \<Rightarrow> int \<Rightarrow> string list \<Rightarrow> NameNode \<Rightarrow> response \<times> NameNode" where
  "handle_heartbeat now nid avail tot chunks s =
     (case map_of (datanodes s) nid of
        Some n \<Rightarrow>
          (Success, s\<lparr>datanodes := AList.update nid (update_heartbeat now avail tot chunks n) (datanodes s)\<rparr>)
      | None \<Rightarrow> (Error DataNodeNotRegistered, s))"

text \<open>
  \<open>xs[:count]\<close>: a negative count drops that many elements from the end.
\<close>

definition py_take :: "int \<Rightarrow> 'a list \<Rightarrow> 'a list" where
  "py_take count xs =
     (if 0 \<le> count then take (nat count) xs else take (length xs - nat (- count)) xs)"

text \<open>
  \<open>sort(key=..., reverse=True)\<close> is stable: elements with equal keys keep their order.
  \<open>sort_key\<close> is stable too, so sorting on the negated key is the same list.
\<close>

definition to_entry :: "DataNodeInfo \<Rightarrow> node_entry" where
  "to_entry n = \<lparr>e_node_id = node_id n, e_host = host n, e_port = port n\<rparr>"

definition healthy_nodes :: "real \<Rightarrow> NameNode \<Rightarrow> DataNodeInfo list" where
  "healthy_nodes now s = filter (is_healthy now) (map snd (datanodes s))"

definition select_datanodes_for_chunk :: "real \<Rightarrow> int \<Rightarrow> NameNode \<Rightarrow> node_entry list" where
  "select_datanodes_for_chunk now count s =
     map to_entry (py_take count (sort_key (\<lambda>n. - available_space n) (healthy_nodes now s)))"

fun upload_init_loop ::
  "real \<Rightarrow> NameNode \<Rightarrow> int list \<Rightarrow> (int \<times> node_entry list) list \<Rightarrow> error + (int \<times> node_entry list) list" where
  "upload_init_loop now s [] chunk_assignments = Inr chunk_assignments"
| "upload_init_loop now s (chunk_id # rest) chunk_assignments =
     (let dns = select_datanodes_for_chunk now (replication_factor s) s in
      if int (length dns) < replication_factor s
      then Inl (InsufficientDataNodes (replication_factor s) (length dns))
      else upload_init_loop now s rest (AList.update chunk_id dns chunk_assignments))"

text \<open>
  \<open>range(num_chunks)\<close> is \<open>[0..num_chunks - 1]\<close>, empty when \<open>num_chunks \<le> 0\<close>.
  The integer division raises ZeroDivisionError when the chunk size is 0; the exception
  is caught in \<open>handle_client\<close> and answered with an error.
\<close>

definition handle_upload_init :: "real \<Rightarrow> string \<Rightarrow> int \<Rightarrow> NameNode \<Rightarrow> response \<times> NameNode" where
  "handle_upload_init now name filesize s =
     (if chunk_size s = 0 then (Error (PyException ZeroDivisionError), s)
      else
        let num_chunks = (filesize + chunk_size s - 1) div chunk_size s in
        case upload_init_loop now s [0..num_chunks - 1] [] of
          Inl e \<Rightarrow> (Error e, s)
        | Inr chunk_assignments \<Rightarrow> (UploadInitOk (chunk_size s) num_chunks chunk_assignments, s))"

text \<open>
  The keys of the \<open>chunks\<close> object arrive as JSON strings and go through \<open>int(..)\<close>:
  a key is \<open>Some i\<close> when its text denotes the integer \<open>i\<close> (several texts may denote
  the same integer) and \<open>None\<close> when \<open>int\<close> raises ValueError.
\<close>

fun upload_complete_loop :: "(int option \<times> string list) list \<Rightarrow> FileMetadata \<Rightarrow> error + FileMetadata" where
  "upload_complete_loop [] m = Inr m"
| "upload_complete_loop ((None, datanode_ids) # rest) m = Inl (PyException ValueError)"
| "upload_complete_loop ((Some chunk_id, datanode_ids) # rest) m =
     upload_complete_loop rest (fold (add_chunk_location chunk_id) datanode_ids m)"

definition handle_upload_complete ::
  "real \<Rightarrow> string \<Rightarrow> int \<Rightarrow> (int option \<times> string list) list \<Rightarrow> NameNode \<Rightarrow> response \<times> NameNode" where
  "handle_upload_complete now name filesize chunks s =
     (case upload_complete_loop chunks
             (new_FileMetadata now name filesize (chunk_size s) (replication_factor s)) of
        Inl e \<Rightarrow> (Error e, s)
      | Inr metadata \<Rightarrow>
          (SuccessMsg (''File '' @ name @ '' uploaded successfully''),
           s\<lparr>files := AList.update name metadata (files s)\<rparr>))"

definition healthy_entries :: "real \<Rightarrow> NameNode \<Rightarrow> string list \<Rightarrow> node_entry list" where
  "healthy_entries now s datanode_ids =
     concat (map (\<lambda>nid. case map_of (datanodes s) nid of
                          Some n \<Rightarrow> if is_healthy now n
                                    then [\<lparr>e_node_id = nid, e_host = host n, e_port = port n\<rparr>]
                                    else []
                        | None \<Rightarrow> [])
                 datanode_ids)"

fun download_init_loop ::
  "real \<Rightarrow> NameNode \<Rightarrow> (int \<times> string list) list \<Rightarrow> (int \<times> node_entry list) list \<Rightarrow>
   error + (int \<times> node_entry list) list" where
  "download_init_loop now s [] chunk_locations = Inr chunk_locations"
| "download_init_loop now s ((chunk_id, datanode_ids) # rest) chunk_locations =
     (let healthy = healthy_entries now s datanode_ids in
      if healthy = [] then Inl (NoHealthyDataNodes chunk_id)
      else download_init_loop now s rest (AList.update chunk_id healthy chunk_locations))"

definition handle_download_init :: "real \<Rightarrow> string \<Rightarrow> NameNode \<Rightarrow> response \<times> NameNode" where
  "handle_download_init now name s =
     (case map_of (files s) name of
        None \<Rightarrow> (Error (FileNotFound name), s)
      | Some metadata \<Rightarrow>
          (case download_init_loop now s (f_chunks metadata) [] of
             Inl e \<Rightarrow> (Error e, s)
           | Inr chunk_locations \<Rightarrow>
               (DownloadInitOk name (f_size metadata) (f_chunk_size metadata) chunk_locations, s)))"

text \<open>\<open>list_files\<close> formats \<open>created_at\<close> as a date; the timestamp itself is kept here.\<close>

definition list_files :: "NameNode \<Rightarrow> response \<times> NameNode" where
  "list_files s =
     (ListFilesOk (map (\<lambda>(name, m). (name, f_size m, length (f_chunks m), f_created_at m)) (files s)), s)"

definition delete_file :: "string \<Rightarrow> NameNode \<Rightarrow> response \<times> NameNode" where
  "delete_file name s =
     (if name \<notin> set (map fst (files s)) then (Error (FileNotFound name), s)
      else (SuccessMsg (''File '' @ name @ '' deleted''), s\<lparr>files := AList.delete name (files s)\<rparr>))"

definition get_file_info :: "string \<Rightarrow> NameNode \<Rightarrow> response \<times> NameNode" where
  "get_file_info name s =
     (case map_of (files s) name of
        None \<Rightarrow> (Error (FileNotFound name), s)
      | Some metadata \<Rightarrow> (FileInfoOk metadata, s))"

definition get_cluster_status :: "NameNode \<Rightarrow> response \<times> NameNode" where
  "get_cluster_status s =
     (ClusterStatusOk (map snd (datanodes s)) (length (files s))
        (sum_list (map (\<lambda>(name, m). f_size m) (files s))), s)"

text \<open>The dispatch of \<open>handle_client\<close>.\<close>

fun handle_client :: "real \<Rightarrow> request \<Rightarrow> NameNode \<Rightarrow> response \<times> NameNode" where
  "handle_client now (RegisterDatanode nid h p) s = register_datanode now nid h p s"
| "handle_client now (Heartbeat nid avail tot chunks) s = handle_heartbeat now nid avail tot chunks s"
| "handle_client now (UploadInit name filesize) s = handle_upload_init now name filesize s"
| "handle_client now (UploadComplete name filesize chunks) s = handle_upload_complete now name filesize chunks s"
| "handle_client now (DownloadInit name) s = handle_download_init now name s"
| "handle_client now ListFiles s = list_files s"
| "handle_client now (DeleteFile name) s = delete_file name s"
| "handle_client now (FileInfo name) s = get_file_info name s"
| "handle_client now ClusterStatus s = get_cluster_status s"
| "handle_client now (OtherCommand c) s = (Error (UnknownCommandError c), s)"

subsection \<open>The liveness scanner\<close>

text \<open>
  One iteration of the loop of \<open>heartbeat_monitor\<close> (after the sleep): the nodes that are
  not healthy and still marked alive are marked dead and collected in \<open>dead_nodes\<close>;
  \<open>handle_node_failures\<close> runs when that list is not empty.
\<close>

definition dead_nodes_of :: "real \<Rightarrow> NameNode \<Rightarrow> string list" where
  "dead_nodes_of now s =
     map fst (filter (\<lambda>(nid, n). \<not> is_healthy now n \<and> is_alive n) (datanodes s))"

definition mark_dead :: "real \<Rightarrow> NameNode \<Rightarrow> NameNode" where
  "mark_dead now s =
     s\<lparr>datanodes := map (\<lambda>(nid, n). if \<not> is_healthy now n \<and> is_alive n
                                     then (nid, n\<lparr>is_alive := False\<rparr>) else (nid, n))
                        (datanodes s)\<rparr>"

definition fail_chunk :: "string list \<Rightarrow> int \<Rightarrow> FileMetadata \<Rightarrow> FileMetadata" where
  "fail_chunk dead_nodes chunk_id m = fold (remove_chunk_location chunk_id) dead_nodes m"

definition fail_file :: "string list \<Rightarrow> FileMetadata \<Rightarrow> FileMetadata" where
  "fail_file dead_nodes m = fold (fail_chunk dead_nodes) (map fst (f_chunks m)) m"

definition handle_node_failures :: "string list \<Rightarrow> NameNode \<Rightarrow> NameNode" where
  "handle_node_failures dead_nodes s =
     s\<lparr>files := map (\<lambda>(name, m). (name, fail_file dead_nodes m)) (files s)\<rparr>"

definition heartbeat_monitor_pass :: "real \<Rightarrow> NameNode \<Rightarrow> NameNode" where
  "heartbeat_monitor_pass now s =
     (let dead_nodes = dead_nodes_of now s; s' = mark_dead now s in
      if dead_nodes \<noteq> [] then handle_node_failures dead_nodes s' else s')"

subsection \<open>Runs of the NameNode\<close>

text \<open>
  An event is a request served by \<open>handle_client\<close> or a pass of the liveness scanner, with
  the time at which it happens. (The replication manager and the statistics reporter only
  print.) A run applies a list of events to the state, oldest first.
\<close>

datatype event = Request request | MonitorPass

fun step :: "real \<times> event \<Rightarrow> NameNode \<Rightarrow> NameNode" where
  "step (now, Request r) s = snd (handle_client now r s)"
| "step (now, MonitorPass) s = heartbeat_monitor_pass now s"

definition run :: "(real \<times> event) list \<Rightarrow> NameNode \<Rightarrow> NameNode" where
  "run evs s = fold step evs s"

text \<open>\<open>registered_in evs nid\<close>: some event of the run is a register request for \<open>nid\<close>.\<close>

fun is_register_of :: "string \<Rightarrow> real \<times> event \<Rightarrow> bool" where
  "is_register_of nid (t, Request (RegisterDatanode n h p)) = (n = nid)"
| "is_register_of nid _ = False"

definition registered_in :: "(real \<times> event) list \<Rightarrow> string \<Rightarrow> bool" where
  "registered_in evs nid = list_ex (is_register_of nid) evs"

subsection \<open>Invariants of the state\<close>

text \<open>
  \<open>registry_ok t s\<close>: at time \<open>t\<close> the registry has one record per id, stored under its
  own id, and a record whose \<open>is_alive\<close> flag is off has had no heartbeat for 30 seconds.
  \<open>files_ok s\<close>: file names and chunk ids are dictionary keys and no replica list holds
  an id twice. \<open>chronological evs now\<close>: the events are in the order of their times and
  none is later than \<open>now\<close>.
\<close>

definition registry_ok :: "real \<Rightarrow> NameNode \<Rightarrow> bool" where
  "registry_ok t s \<longleftrightarrow>
     distinct (map fst (datanodes s)) \<and>
     (\<forall>(nid, n) \<in> set (datanodes s).
        node_id n = nid \<and> (\<not> is_alive n \<longrightarrow> last_heartbeat n + 30 \<le> t))"

definition file_ok :: "FileMetadata \<Rightarrow> bool" where
  "file_ok m \<longleftrightarrow>
     distinct (map fst (f_chunks m)) \<and> (\<forall>(c, locs) \<in> set (f_chunks m). distinct locs)"

definition files_ok :: "NameNode \<Rightarrow> bool" where
  "files_ok s \<longleftrightarrow>
     distinct (map fst (files s)) \<and> (\<forall>(name, m) \<in> set (files s). file_ok m)"

definition chronological :: "(real \<times> event) list \<Rightarrow> real \<Rightarrow> bool" where
  "chronological evs now \<longleftrightarrow> sorted (map fst evs @ [now])"


subsection \<open>A cluster of three DataNodes\<close>

text \<open>
  Three DataNodes register and send one heartbeat each; \<open>demo_state\<close> is the state of a
  NameNode with chunk size 4 and replication factor 2 after these events, and
  \<open>demo_assignment\<close> the two nodes with the most available space.
\<close>

definition demo_events :: "(real \<times> event) list" where
  "demo_events =
     [(0, Request (RegisterDatanode ''dn1'' ''localhost'' 8001)),
      (1, Request (RegisterDatanode ''dn2'' ''localhost'' 8002)),
      (2, Request (RegisterDatanode ''dn3'' ''localhost'' 8003)),
      (3, Request (Heartbeat ''dn1'' 100 1000 [])),
      (4, Request (Heartbeat ''dn2'' 300 1000 [])),
      (5, Request (Heartbeat ''dn3'' 200 1000 []))]"

definition demo_state :: NameNode where
  "demo_state =
     \<lparr>chunk_size = 4, replication_factor = 2, files = [],
      datanodes =
        [(''dn1'', \<lparr>node_id = ''dn1'', host = ''localhost'', port = 8001, last_heartbeat = 3,
                    dn_chunks = {}, available_space = 100, total_space = 1000, is_alive = True\<rparr>),
         (''dn2'', \<lparr>node_id = ''dn2'', host = ''localhost'', port = 8002, last_heartbeat = 4,
                    dn_chunks = {}, available_space = 300, total_space = 1000, is_alive = True\<rparr>),
         (''dn3'', \<lparr>node_id = ''dn3'', host = ''localhost'', port = 8003, last_heartbeat = 5,
                    dn_chunks = {}, available_space = 200, total_space = 1000, is_alive = True\<rparr>)]\<rparr>"


subsection \<open>Live replicas\<close>

text \<open>
  The spec's \<open>alive\<close> bit of a chunk server is derived from the clock:
  \<open>(now - last_heartbeat_at) < liveness_timeout\<close>, which is \<open>is_healthy now\<close>. An id is
  live when the registry has a record for it and the record is healthy.
\<close>

definition live :: "real \<Rightarrow> NameNode \<Rightarrow> string \<Rightarrow> bool" where
  "live now s nid \<longleftrightarrow>
     (case map_of (datanodes s) nid of Some n \<Rightarrow> is_healthy now n | None \<Rightarrow> False)"

definition demo_chunks :: "(int option \<times> string list) list" where
  "demo_chunks = [(Some 0, [''dn2'', ''dn3'']), (Some 1, [''dn2'', ''dn3'']), (Some 2, [''dn2''])]"

definition demo_file :: FileMetadata where
  "demo_file =
     \<lparr>f_filename = ''f.bin'', f_size = 10, f_chunk_size = 4, f_replication_factor = 2,
      f_created_at = 7,
      f_chunks = [(0, [''dn2'', ''dn3'']), (1, [''dn2'', ''dn3'']), (2, [''dn2''])]\<rparr>"

definition demo_state_file :: NameNode where
  "demo_state_file = demo_state\<lparr>files := [(''f.bin'', demo_file)]\<rparr>"

subsection \<open>The chunk keys of a file record\<close>

text \<open>
  \<open>chunk_keys_ok m\<close>: the keys of \<open>chunks\<close> are \<open>0 .. \<lceil>size / chunk_size\<rceil> - 1\<close>.
  \<open>supplied_keys chunks\<close>: the integer keys of an upload_complete request that come with
  at least one DataNode id; \<open>add_chunk_location\<close> is called once per id, so a key with
  an empty list creates no entry. \<open>all_keys_parse chunks\<close>: \<open>int\<close> raises on no key.
\<close>

definition num_chunks_of :: "FileMetadata \<Rightarrow> int" where
  "num_chunks_of m = \<lceil>real_of_int (f_size m) / real_of_int (f_chunk_size m)\<rceil>"

definition chunk_keys_ok :: "FileMetadata \<Rightarrow> bool" where
  "chunk_keys_ok m \<longleftrightarrow> set (map fst (f_chunks m)) = {0 ..< num_chunks_of m}"

definition chunk_key_invariant :: "NameNode \<Rightarrow> bool" where
  "chunk_key_invariant s \<longleftrightarrow> list_all (\<lambda>(name, m). chunk_keys_ok m) (files s)"

fun supplied_keys :: "(int option \<times> string list) list \<Rightarrow> int list" where
  "supplied_keys [] = []"
| "supplied_keys ((None, ids) # rest) = supplied_keys rest"
| "supplied_keys ((Some c, ids) # rest) =
     (if ids = [] then supplied_keys rest else c # supplied_keys rest)"

definition all_keys_parse :: "(int option \<times> string list) list \<Rightarrow> bool" where
  "all_keys_parse chunks \<longleftrightarrow> list_all (\<lambda>(k, ids). k \<noteq> None) chunks"

text \<open>
  \<open>complete_map cs r\<close>: if \<open>r\<close> is an upload_complete request all of whose keys parse,
  the keys that come with a DataNode id are \<open>0 .. \<lceil>size / cs\<rceil> - 1\<close>.
\<close>

fun complete_map :: "int \<Rightarrow> real \<times> event \<Rightarrow> bool" where
  "complete_map cs (t, Request (UploadComplete name sz chunks)) =
     (all_keys_parse chunks \<longrightarrow>
        set (supplied_keys chunks) = {0 ..< \<lceil>real_of_int sz / real_of_int cs\<rceil>})"
| "complete_map cs _ = True"


definition demo_partial_chunks :: "(int option \<times> string list) list" where
  "demo_partial_chunks = [(Some 0, [''dn2'', ''dn3'']), (Some 1, [''dn2''])]"

definition demo_partial_file :: FileMetadata where
  "demo_partial_file =
     \<lparr>f_filename = ''f.bin'', f_size = 10, f_chunk_size = 4, f_replication_factor = 2,
      f_created_at = 7, f_chunks = [(0, [''dn2'', ''dn3'']), (1, [''dn2''])]\<rparr>"

subsection \<open>The ids in the replica lists\<close>

definition replica_ids :: "NameNode \<Rightarrow> string set" where
  "replica_ids s = set (concat (map (\<lambda>(name, m). concat (map snd (f_chunks m))) (files s)))"

text \<open>The body of one iteration of the loop over the chunk keys, on the dictionary alone.\<close>

definition purge_key :: "string list \<Rightarrow> int \<Rightarrow> (int \<times> string list) list \<Rightarrow> (int \<times> string list) list" where
  "purge_key dead c al =
     (case map_of al c of None \<Rightarrow> al | Some locs \<Rightarrow> AList.update c (fold remove1 dead locs) al)"


text \<open>
  A node that dies between upload_init and upload_complete: \<open>dn1\<close> registers at time 0 and
  is assigned a chunk at time 29; the scanner marks it dead at time 30; the client reports
  the chunk at time 31; the scanner runs again at time 40.
\<close>

definition race_events :: "(real \<times> event) list" where
  "race_events =
     [(0, Request (RegisterDatanode ''dn1'' ''localhost'' 8001)),
      (29, Request (UploadInit ''f.bin'' 1)),
      (30, MonitorPass),
      (31, Request (UploadComplete ''f.bin'' 1 [(Some 0, [''dn1''])])),
      (40, MonitorPass)]"

definition race_dn1 :: DataNodeInfo where
  "race_dn1 =
     \<lparr>node_id = ''dn1'', host = ''localhost'', port = 8001, last_heartbeat = 0,
      dn_chunks = {}, available_space = 0, total_space = 0, is_alive = False\<rparr>"

definition race_state :: NameNode where
  "race_state =
     \<lparr>chunk_size = 4, replication_factor = 1,
      files = [(''f.bin'', \<lparr>f_filename = ''f.bin'', f_size = 1, f_chunk_size = 4,
                            f_replication_factor = 1, f_created_at = 31,
                            f_chunks = [(0, [''dn1''])]\<rparr>)],
      datanodes = [(''dn1'', race_dn1)]\<rparr>"

section \<open>The DataNode (datanode.py)\<close>

text \<open>
  A DataNode has the dictionary \<open>self.chunks\<close>, from chunk id to the path of a file, and
  the files of its storage directory. A file is named by its path relative to the storage
  directory, so \<open>os.path.join(self.storage_dir, chunk_id)\<close> is the chunk id itself and
  \<open>storage_dir\<close> maps a path to the bytes of the file.

  Opening and writing a file can fail. \<open>disk\<close> says what the file system does when the
  file of a path is opened with mode \<open>'wb'\<close> and written: \<open>DiskOk\<close>, the file then holds
  the bytes written; \<open>OpenFails\<close>, \<open>open\<close> raises and no file is created or changed;
  \<open>WriteFails k\<close>, the file is created or truncated by \<open>open\<close> and the write raises
  after \<open>k\<close> bytes. \<open>ensure_storage_dir\<close> creates the storage directory and the DataNode
  only ever creates files in it, so the directory has no subdirectory: \<open>open\<close> raises for
  a path whose first component would be one (\<open>in_subdirectory\<close>), whatever \<open>disk\<close> says.
  Reading a file that exists returns its bytes.
\<close>

datatype disk_outcome = DiskOk | OpenFails | WriteFails nat

record DataNode =
  self_chunks :: "(string \<times> string) list"
  storage_dir :: "(string \<times> bytes) list"
  disk :: "string \<Rightarrow> disk_outcome"

definition in_subdirectory :: "string \<Rightarrow> bool" where
  "in_subdirectory path \<longleftrightarrow>
     CHR ''/'' \<in> set path \<and> takeWhile (\<lambda>c. c \<noteq> CHR ''/'') path \<notin> {[], ''.'', ''..''}"

text \<open>
  A connection, seen from one end: \<open>incoming\<close> are the segments that will still arrive, in
  order; once they are used up \<open>recv\<close> returns \<open>b''\<close> when the peer has closed the
  connection (\<open>Eof\<close>) and raises when the connection broke (\<open>Reset\<close>). \<open>writable\<close> is
  the number of \<open>sendall\<close> calls that will still succeed, \<open>sent\<close> what was sent so far.
  (A peer that neither sends nor closes makes \<open>recv\<close> block; the handler then never
  returns. This is not part of the model.)
\<close>

datatype dn_error = IOError | ChunkNotFound string

datatype dn_response =
    StoreOk string nat string
  | RetrieveOk string nat
  | DnError dn_error

datatype wire = Raw bytes | Reply dn_response

datatype sock_end = Eof | Reset

record socket =
  incoming :: "bytes list"
  ending :: sock_end
  writable :: nat
  sent :: "wire list"

text \<open>The token \<open>b'READY'\<close>.\<close>

definition ready_token :: bytes where
  "ready_token = [82, 69, 65, 68, 89]"

definition sendall :: "wire \<Rightarrow> socket \<Rightarrow> dn_error + socket" where
  "sendall w sock =
     (if writable sock = 0 then Inl IOError
      else Inr (sock\<lparr>writable := writable sock - 1, sent := sent sock @ [w]\<rparr>))"

text \<open>
  \<open>take_segment n segs\<close>: the bytes \<open>recv(n)\<close> returns from the pending segments (at most
  \<open>n\<close> bytes of the first segment that is not empty) and the segments left.
\<close>

fun take_segment :: "nat \<Rightarrow> bytes list \<Rightarrow> bytes \<times> bytes list" where
  "take_segment n [] = ([], [])"
| "take_segment n ([] # rest) = take_segment n rest"
| "take_segment n (seg # rest) =
     (take n seg, if length seg \<le> n then rest else drop n seg # rest)"

definition recv :: "nat \<Rightarrow> socket \<Rightarrow> (dn_error + bytes) \<times> socket" where
  "recv n sock =
     (case take_segment n (incoming sock) of
        (data, rest) \<Rightarrow>
          if data = [] \<and> rest = [] \<and> ending sock = Reset then (Inl IOError, sock\<lparr>incoming := []\<rparr>)
          else (Inr data, sock\<lparr>incoming := rest\<rparr>))"

text \<open>
  The receive loop of \<open>store_chunk\<close> (the client has the same loop in
  \<open>retrieve_chunk_from_datanode\<close>):
  \<^verbatim>\<open>
  while remaining > 0:
      data = sock.recv(min(8192, remaining))
      if not data: break
      chunk_data += data
      remaining -= len(data)
  \<close>
\<close>

function receive_loop :: "int \<Rightarrow> bytes \<Rightarrow> socket \<Rightarrow> (dn_error + bytes) \<times> socket" where
  "receive_loop remaining chunk_data sock =
     (if 0 < remaining then
        (case recv (nat (min 8192 remaining)) sock of
           (Inl e, sock') \<Rightarrow> (Inl e, sock')
         | (Inr data, sock') \<Rightarrow>
             if data = [] then (Inr chunk_data, sock')
             else receive_loop (remaining - int (length data)) (chunk_data @ data) sock')
      else (Inr chunk_data, sock))"
  by pat_completeness auto
termination
  by (relation "measure (\<lambda>(remaining, chunk_data, sock). nat remaining)") auto

declare receive_loop.simps [simp del]

text \<open>
  The \<open>except\<close> branch of \<open>store_chunk\<close> and \<open>retrieve_chunk\<close>: the error response is
  sent if the connection still allows it, and returned.
\<close>

definition reply_error :: "socket \<Rightarrow> dn_response \<times> socket" where
  "reply_error sock =
     (case sendall (Reply (DnError IOError)) sock of
        Inl e \<Rightarrow> (DnError IOError, sock)
      | Inr sock' \<Rightarrow> (DnError IOError, sock'))"

text \<open>
  The two statements
  \<^verbatim>\<open>
  with open(chunk_path, 'wb') as f:
      f.write(chunk_data)
  \<close>
  on the files of the storage directory: the exception raised, if any, and the files
  afterwards.
\<close>

definition write_file ::
  "disk_outcome \<Rightarrow> string \<Rightarrow> bytes \<Rightarrow> (string \<times> bytes) list \<Rightarrow>
   dn_error option \<times> (string \<times> bytes) list" where
  "write_file outcome chunk_path chunk_data dir =
     (if in_subdirectory chunk_path then (Some IOError, dir)
      else case outcome of
             OpenFails \<Rightarrow> (Some IOError, dir)
           | WriteFails k \<Rightarrow> (Some IOError, AList.update chunk_path (take k chunk_data) dir)
           | DiskOk \<Rightarrow> (None, AList.update chunk_path chunk_data dir))"

text \<open>\<open>md5\<close> stands for \<open>hashlib.md5(..).hexdigest()\<close>.\<close>

definition store_chunk ::
  "(bytes \<Rightarrow> string) \<Rightarrow> string \<Rightarrow> int \<Rightarrow> socket \<Rightarrow> DataNode \<Rightarrow>
   dn_response \<times> socket \<times> DataNode" where
  "store_chunk md5 chunk_id chunk_sz sock dn =
     (case sendall (Raw ready_token) sock of
        Inl e \<Rightarrow> (case reply_error sock of (r, sock') \<Rightarrow> (r, sock', dn))
      | Inr sock1 \<Rightarrow>
          (case receive_loop chunk_sz [] sock1 of
             (Inl e, sock2) \<Rightarrow> (case reply_error sock2 of (r, sock') \<Rightarrow> (r, sock', dn))
           | (Inr chunk_data, sock2) \<Rightarrow>
               (let chunk_path = chunk_id in
                case write_file (disk dn chunk_path) chunk_path chunk_data (storage_dir dn) of
                  (Some e, dir') \<Rightarrow>
                    (case reply_error sock2 of (r, sock') \<Rightarrow> (r, sock', dn\<lparr>storage_dir := dir'\<rparr>))
                | (None, dir') \<Rightarrow>
                    (let dn' = dn\<lparr>storage_dir := dir',
                                  self_chunks := AList.update chunk_id chunk_path (self_chunks dn)\<rparr>;
                         response = StoreOk chunk_id (length chunk_data) (md5 chunk_data)
                     in case sendall (Reply response) sock2 of
                          Inl e \<Rightarrow> (case reply_error sock2 of (r, sock') \<Rightarrow> (r, sock', dn'))
                        | Inr sock3 \<Rightarrow> (response, sock3, dn')))))"

text \<open>
  \<open>retrieve_chunk\<close>; \<open>open(chunk_path, 'rb')\<close> raises when the file does not exist.
\<close>

definition retrieve_chunk :: "string \<Rightarrow> socket \<Rightarrow> DataNode \<Rightarrow> dn_response \<times> socket" where
  "retrieve_chunk chunk_id sock dn =
     (case map_of (self_chunks dn) chunk_id of
        None \<Rightarrow>
          (case sendall (Reply (DnError (ChunkNotFound chunk_id))) sock of
             Inl e \<Rightarrow> reply_error sock
           | Inr sock1 \<Rightarrow> (DnError (ChunkNotFound chunk_id), sock1))
      | Some chunk_path \<Rightarrow>
          (case map_of (storage_dir dn) chunk_path of
             None \<Rightarrow> reply_error sock
           | Some chunk_data \<Rightarrow>
               (let response = RetrieveOk chunk_id (length chunk_data) in
                case sendall (Reply response) sock of
                  Inl e \<Rightarrow> reply_error sock
                | Inr sock1 \<Rightarrow>
                    (case recv 5 sock1 of
                       (Inl e, sock2) \<Rightarrow> reply_error sock2
                     | (Inr signal, sock2) \<Rightarrow>
                         if signal \<noteq> ready_token then (response, sock2)
                         else (case sendall (Raw chunk_data) sock2 of
                                 Inl e \<Rightarrow> reply_error sock2
                               | Inr sock3 \<Rightarrow> (response, sock3))))))"

text \<open>
  Two connections of a client that announces 4 bytes and delivers 2: \<open>short_sock\<close> is then
  closed by the client, \<open>broken_sock\<close> breaks. \<open>full_sock\<close> delivers the 4 bytes.
  \<open>demo_node\<close> is a DataNode that holds 4 bytes under a chunk id, with a file system that
  takes every write; on \<open>full_disk_node\<close> a write fails after one byte, on
  \<open>read_only_node\<close> no file can be opened for writing.
\<close>

definition short_sock :: socket where
  "short_sock = \<lparr>incoming = [[1, 2]], ending = Eof, writable = 2, sent = []\<rparr>"

definition broken_sock :: socket where
  "broken_sock = \<lparr>incoming = [[1, 2]], ending = Reset, writable = 2, sent = []\<rparr>"

definition full_sock :: socket where
  "full_sock = \<lparr>incoming = [[1, 2, 3, 4]], ending = Eof, writable = 2, sent = []\<rparr>"

definition demo_node :: DataNode where
  "demo_node =
     \<lparr>self_chunks = [(''chunk_f.bin_0'', ''chunk_f.bin_0'')],
      storage_dir = [(''chunk_f.bin_0'', [9, 9, 9, 9])],
      disk = (\<lambda>path. DiskOk)\<rparr>"

definition full_disk_node :: DataNode where
  "full_disk_node = demo_node\<lparr>disk := (\<lambda>path. WriteFails 1)\<rparr>"

definition read_only_node :: DataNode where
  "read_only_node = demo_node\<lparr>disk := (\<lambda>path. OpenFails)\<rparr>"


section \<open>Messages on the wire\<close>

text \<open>
  \<open>str(i)\<close> for an integer: decimal digits, most significant first, with a minus sign for
  a negative number.
\<close>

definition digit_char :: "nat \<Rightarrow> char" where
  "digit_char d = char_of (48 + d)"

function str_nat :: "nat \<Rightarrow> string" where
  "str_nat n = (if n < 10 then [digit_char n] else str_nat (n div 10) @ [digit_char (n mod 10)])"
  by pat_completeness auto
termination
  by (relation "measure id") auto

declare str_nat.simps [simp del]


definition str_int :: "int \<Rightarrow> string" where
  "str_int i = (if i < 0 then CHR ''-'' # str_nat (nat (- i)) else str_nat (nat i))"

text \<open>
  Every request and response is sent as \<open>json.dumps(..).encode('utf-8')\<close>. The values
  sent are dictionaries of strings, integers, lists and dictionaries; a dictionary key that
  is an integer is written as the string \<open>str(key)\<close>. \<open>json.dumps\<close> separates items with
  \<open>", "\<close> and a key from its value with \<open>": "\<close>, and writes a string between double
  quotes, with \<open>\"\<close> and \<open>\\\<close> for the double quote and the backslash, \<open>\b \f \n \r \t\<close>
  for these control characters and \<open>\u00XX\<close> (lower-case hexadecimal digits) for every
  other character outside the range from the space to \<open>~\<close>. The text is ASCII, so its
  UTF-8 encoding has one byte per character. (A character of a \<open>string\<close> has a code
  below 256.)
\<close>

datatype json = JStr string | JInt int | JList "json list" | JObj "(string \<times> json) list"

definition hex_digit :: "nat \<Rightarrow> char" where
  "hex_digit d = (if d < 10 then char_of (48 + d) else char_of (87 + d))"

definition escape :: "char \<Rightarrow> string" where
  "escape c =
     (if c = CHR 0x22 then [CHR 0x5C, CHR 0x22]
      else if c = CHR 0x5C then [CHR 0x5C, CHR 0x5C]
      else if c = CHR 0x08 then [CHR 0x5C, CHR ''b'']
      else if c = CHR 0x0C then [CHR 0x5C, CHR ''f'']
      else if c = CHR 0x0A then [CHR 0x5C, CHR ''n'']
      else if c = CHR 0x0D then [CHR 0x5C, CHR ''r'']
      else if c = CHR 0x09 then [CHR 0x5C, CHR ''t'']
      else if (of_char c :: nat) < 32 \<or> 126 < (of_char c :: nat)
      then [CHR 0x5C, CHR ''u'', CHR ''0'', CHR ''0'',
            hex_digit (of_char c div 16), hex_digit (of_char c mod 16)]
      else [c])"

definition json_string :: "string \<Rightarrow> string" where
  "json_string s = CHR 0x22 # concat (map escape s) @ [CHR 0x22]"

fun join :: "string \<Rightarrow> string list \<Rightarrow> string" where
  "join sep [] = []"
| "join sep [x] = x"
| "join sep (x # y # ys) = x @ sep @ join sep (y # ys)"

fun dumps :: "json \<Rightarrow> string" where
  "dumps (JStr s) = json_string s"
| "dumps (JInt i) = str_int i"
| "dumps (JList xs) = ''['' @ join '', '' (map dumps xs) @ '']''"
| "dumps (JObj kvs) =
     ''{'' @ join '', '' (map (\<lambda>(k, v). json_string k @ '': '' @ dumps v) kvs) @ ''}''"

text \<open>
  The receiver of a JSON message reads it with a single \<open>recv(65536)\<close> and hands the bytes
  to \<open>json.loads\<close>. A message of at most 65536 bytes arrives whole; of a longer one only
  the first 65536 bytes are read, which are not a JSON document, and \<open>json.loads\<close> raises.
\<close>

definition fits :: "json \<Rightarrow> bool" where
  "fits j \<longleftrightarrow> length (dumps j) \<le> 65536"










definition store_chunk_response :: "string \<Rightarrow> nat \<Rightarrow> string \<Rightarrow> json" where
  "store_chunk_response chunk_id sz checksum =
     JObj [(''status'', JStr ''success''), (''chunk_id'', JStr chunk_id), (''size'', JInt (int sz)),
           (''checksum'', JStr checksum)]"

definition retrieve_chunk_request :: "string \<Rightarrow> json" where
  "retrieve_chunk_request chunk_id =
     JObj [(''command'', JStr ''retrieve_chunk''), (''chunk_id'', JStr chunk_id)]"

definition retrieve_chunk_response :: "string \<Rightarrow> nat \<Rightarrow> json" where
  "retrieve_chunk_response chunk_id sz =
     JObj [(''status'', JStr ''success''), (''chunk_id'', JStr chunk_id), (''size'', JInt (int sz))]"


section \<open>The client (client.py)\<close>


text \<open>
  The fleet of DataNodes as the client sees it: the DataNode that listens at a host and
  port, \<open>None\<close> when the connection cannot be opened. Every DataNode that can be reached
  reads the request with one \<open>recv(65536)\<close> (\<open>handle_client\<close> of datanode.py; a request
  that does not fit is answered with an error) and serves it with \<open>store_chunk\<close> or
  \<open>retrieve_chunk\<close>, over a connection that delivers what the other end sends and stays
  open. The NameNode can always be reached.
\<close>

type_synonym fleet = "string \<times> int \<Rightarrow> DataNode option"

text \<open>
  \<open>confirmed r\<close>: the client can read the JSON response with its single \<open>recv(65536)\<close>,
  and its status is success.
\<close>

fun confirmed :: "dn_response \<Rightarrow> bool" where
  "confirmed (StoreOk chunk_id sz checksum) = fits (store_chunk_response chunk_id sz checksum)"
| "confirmed (RetrieveOk chunk_id sz) = fits (retrieve_chunk_response chunk_id sz)"
| "confirmed (DnError e) = False"

fun payloads :: "wire list \<Rightarrow> bytes list" where
  "payloads [] = []"
| "payloads (Raw b # ws) = b # payloads ws"
| "payloads (Reply r # ws) = payloads ws"


text \<open>
  \<open>retrieve_chunk_from_datanode\<close>: the client sends the request and reads the header; on
  success it sends the READY token and runs the receive loop on what the DataNode streams.
  (A client that cannot read the header sends no READY token and returns None; the
  DataNode, which changes nothing when it serves this request, is given the token in
  either case.)
\<close>

definition retrieve_chunk_from_datanode :: "fleet \<Rightarrow> string \<Rightarrow> int \<Rightarrow> string \<Rightarrow> bytes option" where
  "retrieve_chunk_from_datanode fl h p chunk_id =
     (case fl (h, p) of
        None \<Rightarrow> None
      | Some dn \<Rightarrow>
          if \<not> fits (retrieve_chunk_request chunk_id) then None
          else
            (case retrieve_chunk chunk_id
                    \<lparr>incoming = [ready_token], ending = Eof, writable = 2, sent = []\<rparr> dn of
               (response, sock') \<Rightarrow>
                 (case sent sock' of
                    Reply r # ws \<Rightarrow>
                      (case r of
                         RetrieveOk c sz \<Rightarrow>
                           if \<not> confirmed r then None
                           else
                             (case receive_loop (int sz) []
                                     \<lparr>incoming = payloads ws, ending = Eof, writable = 0, sent = []\<rparr> of
                                (Inr chunk_data, sock'') \<Rightarrow> Some chunk_data
                              | (Inl e, sock'') \<Rightarrow> None)
                       | _ \<Rightarrow> None)
                  | _ \<Rightarrow> None)))"

subsection \<open>Requests to the NameNode\<close>




subsection \<open>Upload\<close>





subsection \<open>Download\<close>





subsection \<open>An upload followed by a download\<close>










section \<open>Registration and heartbeats\<close>

text \<open>
  C9: for an id already in the registry, register answers success and the whole state of
  the NameNode is the same as before, whatever host and port are supplied.
\<close>

theorem register_idempotent:
  "nid \<in> set (map fst (datanodes s)) \<Longrightarrow>
     register_datanode now nid h p s = (SuccessMsg ''DataNode already registered'', s)"
  by (simp add: register_datanode_def)

lemmas run_simps = run_def new_NameNode_def register_datanode_def new_DataNodeInfo_def
  handle_heartbeat_def update_heartbeat_def

theorem register_idempotent_witness:
  "''dn1'' \<in> set (map fst (datanodes
      (run [(0, Request (RegisterDatanode ''dn1'' ''localhost'' 8001))] (new_NameNode 4 2))))
   \<and> register_datanode 7 ''dn1'' ''otherhost'' 9999
        (run [(0, Request (RegisterDatanode ''dn1'' ''localhost'' 8001))] (new_NameNode 4 2))
     = (SuccessMsg ''DataNode already registered'',
        run [(0, Request (RegisterDatanode ''dn1'' ''localhost'' 8001))] (new_NameNode 4 2))"
proof -
  let ?s = "run [(0, Request (RegisterDatanode ''dn1'' ''localhost'' 8001))] (new_NameNode 4 2)"
  have h: "''dn1'' \<in> set (map fst (datanodes ?s))"
    by (simp add: run_simps)
  from h register_idempotent [OF h, of 7 "''otherhost''" 9999] show ?thesis
    by blast
qed

lemma datanodes_mark_dead_keys: "map fst (datanodes (mark_dead now s)) = map fst (datanodes s)"
  by (induction "datanodes s" arbitrary: s) (auto simp: mark_dead_def split: prod.splits)

lemma datanodes_monitor_keys:
  "map fst (datanodes (heartbeat_monitor_pass now s)) = map fst (datanodes s)"
  by (simp add: heartbeat_monitor_pass_def Let_def handle_node_failures_def datanodes_mark_dead_keys)

lemma datanodes_handle_client_keys:
  "fst ` set (datanodes (snd (handle_client now r s))) =
     fst ` set (datanodes s) \<union> (case r of RegisterDatanode n h p \<Rightarrow> {n} | _ \<Rightarrow> {})"
proof (cases r)
  case (RegisterDatanode n h p)
  then show ?thesis by (auto simp: register_datanode_def AList.dom_update)
next
  case (Heartbeat n a t c)
  then show ?thesis
    by (auto simp: handle_heartbeat_def AList.dom_update split: option.splits dest!: map_of_SomeD
        intro: rev_image_eqI)
next
  case (UploadInit n f)
  then show ?thesis by (simp add: handle_upload_init_def Let_def split: sum.splits)
next
  case (UploadComplete n f c)
  then show ?thesis by (simp add: handle_upload_complete_def split: sum.splits)
next
  case (DownloadInit n)
  then show ?thesis by (simp add: handle_download_init_def split: sum.splits option.splits)
qed (simp_all add: list_files_def delete_file_def get_file_info_def get_cluster_status_def split: option.splits)

lemma step_registry_keys:
  "fst ` set (datanodes (step e s)) = fst ` set (datanodes s) \<union> {nid. is_register_of nid e}"
proof (cases e)
  case (Pair t ev)
  show ?thesis
  proof (cases ev)
    case (Request r)
    with Pair show ?thesis
      by (cases r) (auto simp: datanodes_handle_client_keys simp del: handle_client.simps)
  next
    case MonitorPass
    with Pair show ?thesis
      using arg_cong [OF datanodes_monitor_keys [of t s], of set] by simp
  qed
qed

lemma run_registry_keys:
  "fst ` set (datanodes (run evs s)) = fst ` set (datanodes s) \<union> {nid. registered_in evs nid}"
  unfolding run_def registered_in_def
  by (induction evs arbitrary: s) (auto simp: step_registry_keys simp del: step.simps)


lemma in_registry_iff: "nid \<in> fst ` set (datanodes s) \<longleftrightarrow> map_of (datanodes s) nid \<noteq> None"
  by (simp add: map_of_eq_None_iff)

text \<open>
  C8: a heartbeat fails with "DataNode not registered" exactly when no register request for
  the id was ever served (records are never removed from the registry), and then leaves the
  state as it is. Otherwise it succeeds and stores the time of the heartbeat, the available
  and total space and the chunk inventory in the node's record, whose \<open>is_alive\<close> flag is
  true and which is healthy at that time. In particular the flag is true after a register
  followed by a heartbeat.
\<close>

theorem heartbeat_contract:
  assumes "s = run evs (new_NameNode cs rf)"
  shows "(fst (handle_heartbeat now nid avail tot chunks s) = Error DataNodeNotRegistered
            \<longleftrightarrow> \<not> registered_in evs nid)
       \<and> (\<not> registered_in evs nid \<longrightarrow>
            handle_heartbeat now nid avail tot chunks s = (Error DataNodeNotRegistered, s))
       \<and> (registered_in evs nid \<longrightarrow>
            (\<exists>n. map_of (datanodes s) nid = Some n
               \<and> handle_heartbeat now nid avail tot chunks s =
                   (Success,
                    s\<lparr>datanodes := AList.update nid
                        (n\<lparr>last_heartbeat := now, available_space := avail, total_space := tot,
                           dn_chunks := set chunks, is_alive := True\<rparr>) (datanodes s)\<rparr>)
               \<and> (\<exists>n'. map_of (datanodes (snd (handle_heartbeat now nid avail tot chunks s))) nid = Some n'
                      \<and> is_alive n' \<and> is_healthy now n' \<and> last_heartbeat n' = now
                      \<and> available_space n' = avail \<and> total_space n' = tot
                      \<and> dn_chunks n' = set chunks)))
       \<and> (\<exists>n'. map_of (datanodes (snd (handle_heartbeat now nid avail tot chunks
                    (snd (register_datanode t0 nid h p s))))) nid = Some n' \<and> is_alive n')"
proof -
  have keys: "nid \<in> fst ` set (datanodes s) \<longleftrightarrow> registered_in evs nid"
    using run_registry_keys [of evs "new_NameNode cs rf"] assms
    by (auto simp: new_NameNode_def)
  have none: "\<not> registered_in evs nid \<Longrightarrow> map_of (datanodes s) nid = None"
    using keys by (simp add: map_of_eq_None_iff)
  have some: "registered_in evs nid \<Longrightarrow> \<exists>n. map_of (datanodes s) nid = Some n"
    using keys in_registry_iff [of nid s] by auto
  have c1: "fst (handle_heartbeat now nid avail tot chunks s) = Error DataNodeNotRegistered
            \<longleftrightarrow> \<not> registered_in evs nid"
    using none some by (cases "registered_in evs nid") (auto simp: handle_heartbeat_def)
  have c2: "\<not> registered_in evs nid \<longrightarrow>
            handle_heartbeat now nid avail tot chunks s = (Error DataNodeNotRegistered, s)"
    using none by (simp add: handle_heartbeat_def)
  have c3: "registered_in evs nid \<longrightarrow>
            (\<exists>n. map_of (datanodes s) nid = Some n
               \<and> handle_heartbeat now nid avail tot chunks s =
                   (Success,
                    s\<lparr>datanodes := AList.update nid
                        (n\<lparr>last_heartbeat := now, available_space := avail, total_space := tot,
                           dn_chunks := set chunks, is_alive := True\<rparr>) (datanodes s)\<rparr>)
               \<and> (\<exists>n'. map_of (datanodes (snd (handle_heartbeat now nid avail tot chunks s))) nid = Some n'
                      \<and> is_alive n' \<and> is_healthy now n' \<and> last_heartbeat n' = now
                      \<and> available_space n' = avail \<and> total_space n' = tot
                      \<and> dn_chunks n' = set chunks))"
    using some
    by (auto simp: handle_heartbeat_def update_heartbeat_def AList.update_conv' is_healthy_def)
  have reg: "\<exists>n. map_of (datanodes (snd (register_datanode t0 nid h p s))) nid = Some n"
    using in_registry_iff [of nid s]
    by (auto simp: register_datanode_def AList.update_conv')
  have c4: "\<exists>n'. map_of (datanodes (snd (handle_heartbeat now nid avail tot chunks
                    (snd (register_datanode t0 nid h p s))))) nid = Some n' \<and> is_alive n'"
    using reg by (auto simp: handle_heartbeat_def update_heartbeat_def AList.update_conv')
  from c1 c2 c3 c4 show ?thesis by blast
qed

theorem heartbeat_contract_witness:
  "registered_in [(0, Request (RegisterDatanode ''dn1'' ''localhost'' 8001))] ''dn1''
   \<and> \<not> registered_in [(0, Request (RegisterDatanode ''dn1'' ''localhost'' 8001))] ''dn2''
   \<and> fst (handle_heartbeat 10 ''dn1'' 500 1000 [''chunk_a_0'']
        (run [(0, Request (RegisterDatanode ''dn1'' ''localhost'' 8001))] (new_NameNode 4 2))) = Success
   \<and> fst (handle_heartbeat 10 ''dn2'' 500 1000 []
        (run [(0, Request (RegisterDatanode ''dn1'' ''localhost'' 8001))] (new_NameNode 4 2)))
       = Error DataNodeNotRegistered"
proof -
  let ?evs = "[(0::real, Request (RegisterDatanode ''dn1'' ''localhost'' 8001))]"
  have r: "registered_in ?evs ''dn1''" and nr: "\<not> registered_in ?evs ''dn2''"
    by (simp_all add: registered_in_def)
  from heartbeat_contract [OF refl, where evs = ?evs and nid = "''dn1''" and cs = 4 and rf = 2
      and now = 10 and avail = 500 and tot = 1000 and chunks = "[''chunk_a_0'']"] r
  obtain s' where "handle_heartbeat 10 ''dn1'' 500 1000 [''chunk_a_0''] (run ?evs (new_NameNode 4 2))
      = (Success, s')"
    by blast
  then have a: "fst (handle_heartbeat 10 ''dn1'' 500 1000 [''chunk_a_0''] (run ?evs (new_NameNode 4 2)))
      = Success"
    by simp
  from heartbeat_contract [OF refl, where evs = ?evs and nid = "''dn2''" and cs = 4 and rf = 2
      and now = 10 and avail = 500 and tot = 1000 and chunks = "[]"] nr
  have b: "fst (handle_heartbeat 10 ''dn2'' 500 1000 [] (run ?evs (new_NameNode 4 2)))
      = Error DataNodeNotRegistered"
    by blast
  from r nr a b show ?thesis by blast
qed

section \<open>Upload initialisation\<close>

text \<open>
  C10: for a file of size 0 the loop over the chunks has no iteration, so upload_init
  succeeds with no chunk and an empty assignment whatever the registry holds, also with no
  registered or no healthy DataNode. (The chunk size is positive; with chunk size 0 the
  division raises.)
\<close>

theorem upload_init_empty_file:
  "0 < chunk_size s \<Longrightarrow>
     handle_upload_init now name 0 s = (UploadInitOk (chunk_size s) 0 [], s)"
  by (simp add: handle_upload_init_def Let_def)

theorem upload_init_empty_file_witness:
  "0 < chunk_size (new_NameNode 4 3) \<and> datanodes (new_NameNode 4 3) = []
   \<and> handle_upload_init 5 ''empty.bin'' 0 (new_NameNode 4 3) = (UploadInitOk 4 0 [], new_NameNode 4 3)"
proof -
  have h: "0 < chunk_size (new_NameNode 4 3)" by (simp add: new_NameNode_def)
  from upload_init_empty_file [OF h, of 5 "''empty.bin''"] h show ?thesis
    by (simp add: new_NameNode_def)
qed

lemma py_take_all: "int (length xs) < count \<Longrightarrow> py_take count xs = xs"
  by (simp add: py_take_def)

lemma length_select_short:
  "int (length (healthy_nodes now s)) < count \<Longrightarrow>
     length (select_datanodes_for_chunk now count s) = length (healthy_nodes now s)"
  by (simp add: select_datanodes_for_chunk_def py_take_all)

lemma num_chunks_pos:
  assumes "0 < (cs::int)" "1 \<le> filesize"
  shows "1 \<le> (filesize + cs - 1) div cs"
proof -
  have "cs \<le> filesize + cs - 1" using assms by simp
  then have "0 < (filesize + cs - 1) div cs"
    using assms(1) by (simp add: pos_imp_zdiv_pos_iff)
  then show ?thesis by simp
qed

lemma upload_init_few_healthy:
  assumes "0 < chunk_size s" "1 \<le> filesize"
    and "int (length (healthy_nodes now s)) < replication_factor s"
  shows "handle_upload_init now name filesize s =
     (Error (InsufficientDataNodes (replication_factor s) (length (healthy_nodes now s))), s)"
proof -
  let ?n = "(filesize + chunk_size s - 1) div chunk_size s"
  have "1 \<le> ?n" using assms(1,2) by (rule num_chunks_pos)
  then have "[0..?n - 1] = 0 # [1..?n - 1]" by (simp add: upto_rec1)
  then show ?thesis using assms
    by (simp add: handle_upload_init_def Let_def length_select_short)
qed

section \<open>Invariants of runs\<close>

subsection \<open>Association lists\<close>

lemma update_fresh: "k \<notin> fst ` set al \<Longrightarrow> AList.update k v al = al @ [(k, v)]"
  by (induction al) auto

lemma set_update_cases:
  "x \<in> set (AList.update k v al) \<Longrightarrow> x = (k, v) \<or> x \<in> set al"
  by (induction al) (auto split: if_splits)

lemma update_middle:
  "k \<notin> fst ` set xs \<Longrightarrow> AList.update k w (xs @ (k, v) # ys) = xs @ (k, w) # ys"
  by (induction xs) auto

lemma set_delete_subset: "x \<in> set (AList.delete k al) \<Longrightarrow> x \<in> set al"
  by (simp add: AList.delete_eq)

subsection \<open>The registry invariant\<close>

lemma registry_ok_mono: "registry_ok t s \<Longrightarrow> t \<le> t' \<Longrightarrow> registry_ok t' s"
  unfolding registry_ok_def by fastforce

lemma registry_ok_register:
  "registry_ok t s \<Longrightarrow> registry_ok t (snd (register_datanode now nid h p s))"
  unfolding registry_ok_def register_datanode_def
  by (auto simp: AList.distinct_update new_DataNodeInfo_def dest!: set_update_cases)

lemma registry_ok_heartbeat:
  "registry_ok t s \<Longrightarrow> registry_ok t (snd (handle_heartbeat now nid a tt c s))"
  unfolding registry_ok_def handle_heartbeat_def
  by (auto simp: AList.distinct_update update_heartbeat_def split: option.splits
      dest!: set_update_cases map_of_SomeD)

lemma registry_ok_monitor:
  assumes "registry_ok t s" "t \<le> now"
  shows "registry_ok now (heartbeat_monitor_pass now s)"
proof -
  have d: "datanodes (heartbeat_monitor_pass now s) = datanodes (mark_dead now s)"
    by (simp add: heartbeat_monitor_pass_def Let_def handle_node_failures_def)
  have k: "map fst (datanodes (mark_dead now s)) = map fst (datanodes s)"
    by (rule datanodes_mark_dead_keys)
  have "\<forall>(nid, n) \<in> set (datanodes (mark_dead now s)).
          node_id n = nid \<and> (\<not> is_alive n \<longrightarrow> last_heartbeat n + 30 \<le> now)"
    using assms unfolding registry_ok_def mark_dead_def is_healthy_def
    by (fastforce split: if_splits)
  then show ?thesis using assms(1) d k by (simp add: registry_ok_def)
qed

lemma registry_ok_handle_client:
  "registry_ok t s \<Longrightarrow> registry_ok t (snd (handle_client now r s))"
proof (cases r)
  case (RegisterDatanode n h p)
  then show "registry_ok t s \<Longrightarrow> ?thesis" by (simp add: registry_ok_register)
next
  case (Heartbeat n a tt c)
  then show "registry_ok t s \<Longrightarrow> ?thesis" by (simp add: registry_ok_heartbeat)
qed (simp_all add: registry_ok_def handle_upload_init_def handle_upload_complete_def handle_download_init_def
        list_files_def delete_file_def get_file_info_def get_cluster_status_def Let_def
        split: sum.splits option.splits)

lemma registry_ok_step:
  "registry_ok t s \<Longrightarrow> t \<le> fst e \<Longrightarrow> registry_ok (fst e) (step e s)"
proof (cases e)
  case (Pair now ev)
  assume a: "registry_ok t s" "t \<le> fst e"
  show ?thesis
  proof (cases ev)
    case (Request r)
    with Pair a show ?thesis
      using registry_ok_handle_client [OF registry_ok_mono [OF a(1), of now], of now r] by simp
  next
    case MonitorPass
    with Pair a show ?thesis by (simp add: registry_ok_monitor)
  qed
qed


subsection \<open>The file index invariant\<close>

lemma file_ok_add: "file_ok m \<Longrightarrow> file_ok (add_chunk_location c d m)"
  unfolding file_ok_def add_chunk_location_def
  by (auto simp: AList.distinct_update split: option.splits dest!: set_update_cases map_of_SomeD)

lemma file_ok_fold_add: "file_ok m \<Longrightarrow> file_ok (fold (add_chunk_location c) ds m)"
  by (induction ds arbitrary: m) (simp_all add: file_ok_add)

lemma file_ok_upload_complete_loop:
  "file_ok m \<Longrightarrow> upload_complete_loop chunks m = Inr m' \<Longrightarrow> file_ok m'"
  by (induction chunks m rule: upload_complete_loop.induct) (simp_all add: file_ok_fold_add)

lemma file_ok_remove: "file_ok m \<Longrightarrow> file_ok (remove_chunk_location c d m)"
  unfolding file_ok_def remove_chunk_location_def
  by (auto simp: AList.distinct_update split: option.splits dest!: set_update_cases map_of_SomeD)

lemma file_ok_fail_chunk: "file_ok m \<Longrightarrow> file_ok (fail_chunk dead c m)"
  unfolding fail_chunk_def by (induction dead arbitrary: m) (simp_all add: file_ok_remove)

lemma file_ok_fold_fail_chunk: "file_ok m \<Longrightarrow> file_ok (fold (fail_chunk dead) cs m)"
  by (induction cs arbitrary: m) (simp_all add: file_ok_fail_chunk)

lemma file_ok_fail_file: "file_ok m \<Longrightarrow> file_ok (fail_file dead m)"
  unfolding fail_file_def by (rule file_ok_fold_fail_chunk)

lemma files_ok_failures: "files_ok s \<Longrightarrow> files_ok (handle_node_failures dead s)"
  unfolding files_ok_def handle_node_failures_def
  by (auto simp: file_ok_fail_file comp_def case_prod_unfold)

lemma files_ok_monitor: "files_ok s \<Longrightarrow> files_ok (heartbeat_monitor_pass now s)"
proof -
  have "files_ok s \<Longrightarrow> files_ok (mark_dead now s)"
    by (simp add: files_ok_def mark_dead_def)
  then show "files_ok s \<Longrightarrow> ?thesis"
    by (simp add: heartbeat_monitor_pass_def Let_def files_ok_failures)
qed

lemma files_ok_upload_complete:
  "files_ok s \<Longrightarrow> files_ok (snd (handle_upload_complete now name sz chunks s))"
proof -
  assume a: "files_ok s"
  have e: "file_ok (new_FileMetadata now name sz (chunk_size s) (replication_factor s))"
    by (simp add: file_ok_def new_FileMetadata_def)
  show ?thesis
  proof (cases "upload_complete_loop chunks
                  (new_FileMetadata now name sz (chunk_size s) (replication_factor s))")
    case (Inl err)
    with a show ?thesis by (simp add: handle_upload_complete_def)
  next
    case (Inr m')
    then have "file_ok m'" using e by (rule file_ok_upload_complete_loop [rotated])
    with a Inr show ?thesis
      by (auto simp: handle_upload_complete_def files_ok_def AList.distinct_update
          dest!: set_update_cases)
  qed
qed

lemma files_ok_delete: "files_ok s \<Longrightarrow> files_ok (snd (delete_file name s))"
  unfolding files_ok_def delete_file_def
  by (auto simp: AList.distinct_delete dest!: set_delete_subset)

lemma files_ok_handle_client: "files_ok s \<Longrightarrow> files_ok (snd (handle_client now r s))"
proof (cases r)
  case (UploadComplete n f c)
  then show "files_ok s \<Longrightarrow> ?thesis" by (simp add: files_ok_upload_complete)
next
  case (DeleteFile n)
  then show "files_ok s \<Longrightarrow> ?thesis" by (simp add: files_ok_delete)
qed (simp_all add: files_ok_def register_datanode_def handle_heartbeat_def handle_upload_init_def
        handle_download_init_def list_files_def get_file_info_def get_cluster_status_def Let_def
        split: sum.splits option.splits)

lemma files_ok_step: "files_ok s \<Longrightarrow> files_ok (step e s)"
proof (cases e)
  case (Pair now ev)
  then show "files_ok s \<Longrightarrow> ?thesis"
    by (cases ev) (simp_all add: files_ok_handle_client files_ok_monitor)
qed

subsection \<open>The configuration never changes\<close>

lemma config_handle_client:
  "chunk_size (snd (handle_client now r s)) = chunk_size s \<and>
   replication_factor (snd (handle_client now r s)) = replication_factor s"
  by (cases r)
     (simp_all add: register_datanode_def handle_heartbeat_def handle_upload_init_def
        handle_upload_complete_def handle_download_init_def list_files_def delete_file_def
        get_file_info_def get_cluster_status_def Let_def split: sum.splits option.splits)

lemma config_step:
  "chunk_size (step e s) = chunk_size s \<and> replication_factor (step e s) = replication_factor s"
proof (cases e)
  case (Pair now ev)
  then show ?thesis
    by (cases ev)
       (simp_all add: config_handle_client heartbeat_monitor_pass_def Let_def
          handle_node_failures_def mark_dead_def)
qed


subsection \<open>Every state of a run satisfies the invariants\<close>

lemma run_invariant_gen:
  "registry_ok t s \<Longrightarrow> files_ok s \<Longrightarrow> sorted (t # map fst evs @ [now]) \<Longrightarrow>
     registry_ok now (run evs s) \<and> files_ok (run evs s)"
proof (induction evs arbitrary: t s)
  case Nil
  then show ?case by (simp add: run_def registry_ok_mono)
next
  case (Cons e evs)
  from Cons.prems have le: "t \<le> fst e" and srt: "sorted (fst e # map fst evs @ [now])"
    by simp_all
  have r: "registry_ok (fst e) (step e s)" using Cons.prems(1) le by (rule registry_ok_step)
  have f: "files_ok (step e s)" using Cons.prems(2) by (rule files_ok_step)
  from Cons.IH [OF r f srt] show ?case by (simp add: run_def)
qed

lemma run_invariant:
  assumes "chronological evs now"
  shows "registry_ok now (run evs (new_NameNode cs rf)) \<and> files_ok (run evs (new_NameNode cs rf))"
proof (cases evs)
  case Nil
  then show ?thesis by (simp add: run_def registry_ok_def files_ok_def new_NameNode_def)
next
  case (Cons e es)
  have r: "registry_ok (fst e) (new_NameNode cs rf)" by (simp add: registry_ok_def new_NameNode_def)
  have f: "files_ok (new_NameNode cs rf)" by (simp add: files_ok_def new_NameNode_def)
  have "sorted (fst e # map fst evs @ [now])" using assms Cons by (simp add: chronological_def)
  from run_invariant_gen [OF r f this] show ?thesis .
qed

lemma healthy_is_alive:
  assumes "registry_ok t s" "t \<le> now" "(nid, n) \<in> set (datanodes s)" "is_healthy now n"
  shows "is_alive n"
  using assms unfolding registry_ok_def is_healthy_def by fastforce


subsection \<open>Too few live DataNodes\<close>

lemma length_filter_mono:
  "(\<And>x. x \<in> set xs \<Longrightarrow> P x \<Longrightarrow> Q x) \<Longrightarrow> length (filter P xs) \<le> length (filter Q xs)"
  by (induction xs) auto

lemma healthy_le_alive:
  assumes "registry_ok t s" "t \<le> now"
  shows "length (healthy_nodes now s) \<le> length (filter is_alive (map snd (datanodes s)))"
  unfolding healthy_nodes_def
proof (rule length_filter_mono)
  fix n assume "n \<in> set (map snd (datanodes s))" and h: "is_healthy now n"
  then obtain nid where "(nid, n) \<in> set (datanodes s)" by auto
  from healthy_is_alive [OF assms this h] show "is_alive n" .
qed

text \<open>
  C4: for a file of at least one byte, when fewer DataNodes are healthy than the
  replication factor asks for, upload_init answers "Insufficient DataNodes" and the state
  of the NameNode is the one before the call: no file is installed, nothing is reserved.
  On a run of the NameNode the same holds when fewer DataNodes have their \<open>is_alive\<close>
  flag on than the replication factor asks for, since a healthy node has its flag on.
\<close>

theorem upload_init_insufficient:
  assumes "0 < chunk_size s" "1 \<le> filesize"
  shows "(int (length (healthy_nodes now s)) < replication_factor s \<longrightarrow>
            handle_upload_init now name filesize s =
              (Error (InsufficientDataNodes (replication_factor s) (length (healthy_nodes now s))), s))
     \<and> (\<forall>evs cs rf. chronological evs now \<and> s = run evs (new_NameNode cs rf)
            \<and> int (length (filter is_alive (map snd (datanodes s)))) < replication_factor s \<longrightarrow>
            handle_upload_init now name filesize s =
              (Error (InsufficientDataNodes (replication_factor s) (length (healthy_nodes now s))), s))"
proof (intro conjI allI impI)
  assume "int (length (healthy_nodes now s)) < replication_factor s"
  with assms show "handle_upload_init now name filesize s =
      (Error (InsufficientDataNodes (replication_factor s) (length (healthy_nodes now s))), s)"
    by (rule upload_init_few_healthy)
next
  fix evs cs rf
  assume a: "chronological evs now \<and> s = run evs (new_NameNode cs rf)
            \<and> int (length (filter is_alive (map snd (datanodes s)))) < replication_factor s"
  then have "registry_ok now s" using run_invariant [of evs now cs rf] by simp
  from healthy_le_alive [OF this order_refl]
  have "int (length (healthy_nodes now s)) \<le> int (length (filter is_alive (map snd (datanodes s))))"
    by (simp only: of_nat_le_iff)
  with a have "int (length (healthy_nodes now s)) < replication_factor s" by linarith
  with assms show "handle_upload_init now name filesize s =
      (Error (InsufficientDataNodes (replication_factor s) (length (healthy_nodes now s))), s)"
    by (rule upload_init_few_healthy)
qed

theorem upload_init_insufficient_witness:
  "0 < chunk_size (run [(0, Request (RegisterDatanode ''dn1'' ''localhost'' 8001)),
                        (1, Request (RegisterDatanode ''dn2'' ''localhost'' 8002))] (new_NameNode 4 3))
   \<and> (1::int) \<le> 10
   \<and> int (length (healthy_nodes 5
        (run [(0, Request (RegisterDatanode ''dn1'' ''localhost'' 8001)),
              (1, Request (RegisterDatanode ''dn2'' ''localhost'' 8002))] (new_NameNode 4 3)))) < 3
   \<and> handle_upload_init 5 ''f.bin'' 10
        (run [(0, Request (RegisterDatanode ''dn1'' ''localhost'' 8001)),
              (1, Request (RegisterDatanode ''dn2'' ''localhost'' 8002))] (new_NameNode 4 3))
      = (Error (InsufficientDataNodes 3 2),
         run [(0, Request (RegisterDatanode ''dn1'' ''localhost'' 8001)),
              (1, Request (RegisterDatanode ''dn2'' ''localhost'' 8002))] (new_NameNode 4 3))"
proof -
  let ?s = "run [(0, Request (RegisterDatanode ''dn1'' ''localhost'' 8001)),
                 (1, Request (RegisterDatanode ''dn2'' ''localhost'' 8002))] (new_NameNode 4 3)"
  have cs: "chunk_size ?s = 4" and rf: "replication_factor ?s = 3"
    by (simp_all add: run_simps)
  have len: "length (healthy_nodes 5 ?s) = 2"
    by (simp add: run_simps healthy_nodes_def is_healthy_def)
  have h1: "0 < chunk_size ?s" and h3: "int (length (healthy_nodes 5 ?s)) < replication_factor ?s"
    using cs rf len by simp_all
  have h2: "(1::int) \<le> 10" by simp
  from upload_init_insufficient [OF h1 h2, of 5 "''f.bin''"] h3
  have "handle_upload_init 5 ''f.bin'' 10 ?s =
      (Error (InsufficientDataNodes (replication_factor ?s) (length (healthy_nodes 5 ?s))), ?s)"
    by blast
  with h1 h2 h3 show ?thesis by (simp only: rf len)
qed

section \<open>Placement\<close>

subsection \<open>Number of chunks\<close>













lemma demo_run: "run demo_events (new_NameNode 4 2) = demo_state"
  by (simp add: demo_events_def demo_state_def run_simps)




section \<open>Download initialisation\<close>

lemma healthy_entries_empty_iff:
  "healthy_entries now s ids = [] \<longleftrightarrow> (\<forall>nid \<in> set ids. \<not> live now s nid)"
  by (induction ids) (auto simp: healthy_entries_def live_def split: option.splits)

lemma healthy_entries_member:
  "e \<in> set (healthy_entries now s ids) \<Longrightarrow>
     \<exists>n. e_node_id e \<in> set ids \<and> map_of (datanodes s) (e_node_id e) = Some n \<and> is_healthy now n
        \<and> e_host e = host n \<and> e_port e = port n"
proof (induction ids)
  case Nil
  then show ?case by (simp add: healthy_entries_def)
next
  case (Cons nid ids)
  show ?case
  proof (cases "e \<in> set (healthy_entries now s ids)")
    case True
    from Cons.IH [OF this] show ?thesis by auto
  next
    case False
    with Cons.prems have "\<exists>n. Some n = map_of (datanodes s) nid \<and> is_healthy now n
        \<and> e = \<lparr>e_node_id = nid, e_host = host n, e_port = port n\<rparr>"
      by (simp add: healthy_entries_def) blast
    then obtain n where n: "Some n = map_of (datanodes s) nid" "is_healthy now n"
      "e = \<lparr>e_node_id = nid, e_host = host n, e_port = port n\<rparr>"
      by blast
    from n(1) have "map_of (datanodes s) nid = Some n" by (rule sym)
    with n(2,3) show ?thesis by simp
  qed
qed

lemma download_init_loop_success:
  "(\<forall>(c, ids) \<in> set chs. \<exists>nid \<in> set ids. live now s nid) \<Longrightarrow>
     download_init_loop now s chs acc =
       Inr (fold (\<lambda>(c, ids). AList.update c (healthy_entries now s ids)) chs acc)"
proof (induction chs arbitrary: acc)
  case Nil
  then show ?case by simp
next
  case (Cons x chs)
  obtain c ids where x: "x = (c, ids)" by (cases x)
  from Cons.prems x have "healthy_entries now s ids \<noteq> []"
    by (auto simp: healthy_entries_empty_iff)
  with Cons x show ?case by (simp add: Let_def)
qed

lemma download_init_loop_failure:
  "(\<exists>(c, ids) \<in> set chs. \<forall>nid \<in> set ids. \<not> live now s nid) \<Longrightarrow>
     \<exists>c. download_init_loop now s chs acc = Inl (NoHealthyDataNodes c)"
proof (induction chs arbitrary: acc)
  case Nil
  then show ?case by simp
next
  case (Cons x chs)
  obtain c ids where x: "x = (c, ids)" by (cases x)
  show ?case
  proof (cases "healthy_entries now s ids = []")
    case True
    with x show ?thesis by (simp add: Let_def)
  next
    case False
    then have "\<not> (\<forall>nid \<in> set ids. \<not> live now s nid)" by (simp add: healthy_entries_empty_iff)
    with Cons.prems x have "\<exists>(c, ids) \<in> set chs. \<forall>nid \<in> set ids. \<not> live now s nid" by auto
    from Cons.IH [OF this] False x show ?thesis by (simp add: Let_def)
  qed
qed

lemma fold_update_set:
  "x \<in> set (fold (\<lambda>(c, ids). AList.update c (g ids)) chs acc) \<Longrightarrow>
     x \<in> set acc \<or> (\<exists>ids. (fst x, ids) \<in> set chs \<and> snd x = g ids)"
proof (induction chs arbitrary: acc)
  case Nil
  then show ?case by simp
next
  case (Cons y chs)
  obtain c ids where y: "y = (c, ids)" by (cases y)
  from Cons.prems y have "x \<in> set (fold (\<lambda>(c, ids). AList.update c (g ids)) chs (AList.update c (g ids) acc))"
    by simp
  from Cons.IH [OF this] show ?case
  proof
    assume "x \<in> set (AList.update c (g ids) acc)"
    from set_update_cases [OF this] y show ?thesis by auto
  next
    assume "\<exists>ids. (fst x, ids) \<in> set chs \<and> snd x = g ids"
    then show ?thesis by auto
  qed
qed

lemma fold_update_keys:
  "fst ` set (fold (\<lambda>(c, ids). AList.update c (g ids)) chs acc) = fst ` set acc \<union> fst ` set chs"
proof (induction chs arbitrary: acc)
  case Nil
  then show ?case by simp
next
  case (Cons y chs)
  obtain c ids where y: "y = (c, ids)" by (cases y)
  have "fst ` set (fold (\<lambda>(c, ids). AList.update c (g ids)) (y # chs) acc)
      = fst ` set (AList.update c (g ids) acc) \<union> fst ` set chs"
    using Cons.IH [of "AList.update c (g ids) acc"] y by simp
  also have "\<dots> = fst ` set acc \<union> fst ` set (y # chs)"
    unfolding AList.dom_update y by auto
  finally show ?case .
qed

lemma healthy_entries_ids:
  "map e_node_id (healthy_entries now s ids) = filter (live now s) ids"
  by (induction ids) (auto simp: healthy_entries_def live_def split: option.splits)

lemma fold_update_fresh_pairs:
  "distinct (map fst chs) \<Longrightarrow> fst ` set chs \<inter> fst ` set acc = {} \<Longrightarrow>
     fold (\<lambda>(c, ids). AList.update c (g ids)) chs acc = acc @ map (\<lambda>(c, ids). (c, g ids)) chs"
proof (induction chs arbitrary: acc)
  case Nil
  then show ?case by simp
next
  case (Cons x chs)
  obtain c ids where x: "x = (c, ids)" by (cases x)
  from Cons.prems x have "c \<notin> fst ` set acc" by auto
  then have u: "AList.update c (g ids) acc = acc @ [(c, g ids)]" by (rule update_fresh)
  have "fst ` set chs \<inter> fst ` set (acc @ [(c, g ids)]) = {}" using Cons.prems x by auto
  with Cons.IH [of "acc @ [(c, g ids)]"] Cons.prems(1) u x show ?case by simp
qed

text \<open>
  C7: download_init answers "File not found" for a name that is not in the file index.
  For a known file, when every chunk has a live replica it returns the size and chunk size
  of the file and a location list for every chunk key of the file. The list of a chunk is
  not empty and is made from the replica list of that chunk: its node ids are the live ids
  of the replica list, in the order of the replica list, each with the host and port of its
  record in the registry. (When the chunk keys are pairwise different, as the keys of a
  dictionary are, the whole map is the replica map with every list so filtered.) When
  some chunk has no live replica the answer is "No healthy DataNodes for chunk ..". The
  state is not changed in any case.
\<close>

theorem download_init_contract:
  "(map_of (files s) name = None \<longrightarrow>
      handle_download_init now name s = (Error (FileNotFound name), s))
   \<and> (\<forall>m. map_of (files s) name = Some m
          \<and> (\<forall>(c, ids) \<in> set (f_chunks m). \<exists>nid \<in> set ids. live now s nid) \<longrightarrow>
        (\<exists>locs. handle_download_init now name s =
                  (DownloadInitOk name (f_size m) (f_chunk_size m) locs, s)
           \<and> fst ` set locs = fst ` set (f_chunks m)
           \<and> (\<forall>(c, es) \<in> set locs. es \<noteq> [] \<and>
                 (\<exists>ids. (c, ids) \<in> set (f_chunks m)
                    \<and> map e_node_id es = filter (live now s) ids) \<and>
                 (\<forall>e \<in> set es. live now s (e_node_id e) \<and>
                    (\<exists>n. map_of (datanodes s) (e_node_id e) = Some n
                       \<and> e_host e = host n \<and> e_port e = port n)))
           \<and> (distinct (map fst (f_chunks m)) \<longrightarrow>
                map fst locs = map fst (f_chunks m)
                \<and> (\<forall>c ids. map_of (f_chunks m) c = Some ids \<longrightarrow>
                     (\<exists>es. map_of locs c = Some es
                        \<and> map e_node_id es = filter (live now s) ids)))))
   \<and> (\<forall>m. map_of (files s) name = Some m
          \<and> (\<exists>(c, ids) \<in> set (f_chunks m). \<forall>nid \<in> set ids. \<not> live now s nid) \<longrightarrow>
        (\<exists>c. handle_download_init now name s = (Error (NoHealthyDataNodes c), s)))"
proof (intro conjI allI impI)
  assume "map_of (files s) name = None"
  then show "handle_download_init now name s = (Error (FileNotFound name), s)"
    by (simp add: handle_download_init_def)
next
  fix m
  assume a: "map_of (files s) name = Some m
          \<and> (\<forall>(c, ids) \<in> set (f_chunks m). \<exists>nid \<in> set ids. live now s nid)"
  let ?locs = "fold (\<lambda>(c, ids). AList.update c (healthy_entries now s ids)) (f_chunks m) []"
  from a have loop: "download_init_loop now s (f_chunks m) [] = Inr ?locs"
    by (intro download_init_loop_success) simp
  have r: "handle_download_init now name s = (DownloadInitOk name (f_size m) (f_chunk_size m) ?locs, s)"
    using a loop by (simp add: handle_download_init_def)
  have k: "fst ` set ?locs = fst ` set (f_chunks m)" by (simp add: fold_update_keys)
  have e: "\<forall>(c, es) \<in> set ?locs. es \<noteq> [] \<and>
                 (\<exists>ids. (c, ids) \<in> set (f_chunks m)
                    \<and> map e_node_id es = filter (live now s) ids) \<and>
                 (\<forall>e \<in> set es. live now s (e_node_id e) \<and>
                    (\<exists>n. map_of (datanodes s) (e_node_id e) = Some n
                       \<and> e_host e = host n \<and> e_port e = port n))"
  proof (clarify)
    fix c es assume "(c, es) \<in> set ?locs"
    from fold_update_set [OF this] obtain ids
      where ids: "(c, ids) \<in> set (f_chunks m)" and es: "es = healthy_entries now s ids"
      by auto
    from a ids have "\<exists>nid \<in> set ids. live now s nid" by auto
    then have ne: "es \<noteq> []" unfolding es by (simp add: healthy_entries_empty_iff)
    have src: "\<exists>ids. (c, ids) \<in> set (f_chunks m) \<and> map e_node_id es = filter (live now s) ids"
      using ids unfolding es by (auto simp: healthy_entries_ids)
    have "\<forall>e \<in> set es. live now s (e_node_id e) \<and>
                    (\<exists>n. map_of (datanodes s) (e_node_id e) = Some n
                       \<and> e_host e = host n \<and> e_port e = port n)"
    proof
      fix e assume "e \<in> set es"
      from healthy_entries_member [OF this [unfolded es]]
      show "live now s (e_node_id e) \<and>
                    (\<exists>n. map_of (datanodes s) (e_node_id e) = Some n
                       \<and> e_host e = host n \<and> e_port e = port n)"
        by (auto simp: live_def)
    qed
    with ne src show "es \<noteq> [] \<and>
                 (\<exists>ids. (c, ids) \<in> set (f_chunks m)
                    \<and> map e_node_id es = filter (live now s) ids) \<and>
                 (\<forall>e \<in> set es. live now s (e_node_id e) \<and>
                    (\<exists>n. map_of (datanodes s) (e_node_id e) = Some n
                       \<and> e_host e = host n \<and> e_port e = port n))"
      by simp
  qed
  have x: "distinct (map fst (f_chunks m)) \<longrightarrow>
                map fst ?locs = map fst (f_chunks m)
                \<and> (\<forall>c ids. map_of (f_chunks m) c = Some ids \<longrightarrow>
                     (\<exists>es. map_of ?locs c = Some es
                        \<and> map e_node_id es = filter (live now s) ids))"
  proof
    assume d: "distinct (map fst (f_chunks m))"
    from fold_update_fresh_pairs [OF d, of "[]" "healthy_entries now s"]
    have eq: "?locs = map (\<lambda>(c, ids). (c, healthy_entries now s ids)) (f_chunks m)" by simp
    have 1: "map fst ?locs = map fst (f_chunks m)"
      unfolding eq by (simp add: comp_def case_prod_unfold)
    have 2: "\<exists>es. map_of ?locs c = Some es \<and> map e_node_id es = filter (live now s) ids"
      if "map_of (f_chunks m) c = Some ids" for c ids
    proof -
      have "map_of (map (\<lambda>(c, ids). (c, healthy_entries now s ids)) al) c =
          map_option (healthy_entries now s) (map_of al c)" for al
        by (induction al) auto
      with that have "map_of ?locs c = Some (healthy_entries now s ids)"
        unfolding eq by simp
      then show ?thesis by (simp add: healthy_entries_ids)
    qed
    from 1 2 show "map fst ?locs = map fst (f_chunks m)
                \<and> (\<forall>c ids. map_of (f_chunks m) c = Some ids \<longrightarrow>
                     (\<exists>es. map_of ?locs c = Some es
                        \<and> map e_node_id es = filter (live now s) ids))"
      by blast
  qed
  show "\<exists>locs. handle_download_init now name s =
                  (DownloadInitOk name (f_size m) (f_chunk_size m) locs, s)
           \<and> fst ` set locs = fst ` set (f_chunks m)
           \<and> (\<forall>(c, es) \<in> set locs. es \<noteq> [] \<and>
                 (\<exists>ids. (c, ids) \<in> set (f_chunks m)
                    \<and> map e_node_id es = filter (live now s) ids) \<and>
                 (\<forall>e \<in> set es. live now s (e_node_id e) \<and>
                    (\<exists>n. map_of (datanodes s) (e_node_id e) = Some n
                       \<and> e_host e = host n \<and> e_port e = port n)))
           \<and> (distinct (map fst (f_chunks m)) \<longrightarrow>
                map fst locs = map fst (f_chunks m)
                \<and> (\<forall>c ids. map_of (f_chunks m) c = Some ids \<longrightarrow>
                     (\<exists>es. map_of locs c = Some es
                        \<and> map e_node_id es = filter (live now s) ids)))"
    by (rule exI [of _ ?locs], intro conjI) (rule r k e x)+
next
  fix m
  assume a: "map_of (files s) name = Some m
          \<and> (\<exists>(c, ids) \<in> set (f_chunks m). \<forall>nid \<in> set ids. \<not> live now s nid)"
  then have "\<exists>c. download_init_loop now s (f_chunks m) [] = Inl (NoHealthyDataNodes c)"
    by (intro download_init_loop_failure) simp
  with a show "\<exists>c. handle_download_init now name s = (Error (NoHealthyDataNodes c), s)"
    by (auto simp: handle_download_init_def)
qed

lemma demo_run_file:
  "run (demo_events @ [(7, Request (UploadComplete ''f.bin'' 10 demo_chunks))]) (new_NameNode 4 2)
     = demo_state_file"
proof -
  have "run (demo_events @ [(7, Request (UploadComplete ''f.bin'' 10 demo_chunks))]) (new_NameNode 4 2)
      = snd (handle_upload_complete 7 ''f.bin'' 10 demo_chunks demo_state)"
    using demo_run by (simp add: run_def)
  also have "\<dots> = demo_state_file"
    by (simp add: handle_upload_complete_def demo_chunks_def demo_state_def demo_state_file_def
        demo_file_def new_FileMetadata_def add_chunk_location_def)
  finally show ?thesis .
qed


lemma demo_live: "live 8 demo_state_file ''dn2''" "live 8 demo_state_file ''dn3''"
  "\<not> live 100 demo_state_file ''dn2''"
  by (simp_all add: live_def demo_state_file_def demo_state_def is_healthy_def)

theorem download_init_contract_witness:
  "map_of (files demo_state_file) ''missing.bin'' = None
   \<and> handle_download_init 8 ''missing.bin'' demo_state_file =
        (Error (FileNotFound ''missing.bin''), demo_state_file)
   \<and> map_of (files demo_state_file) ''f.bin'' = Some demo_file
   \<and> live 8 demo_state_file ''dn2''
   \<and> (\<exists>locs. handle_download_init 8 ''f.bin'' demo_state_file =
                 (DownloadInitOk ''f.bin'' 10 4 locs, demo_state_file))
   \<and> \<not> live 100 demo_state_file ''dn2''
   \<and> (\<exists>c. handle_download_init 100 ''f.bin'' demo_state_file =
              (Error (NoHealthyDataNodes c), demo_state_file))"
proof -
  have none: "map_of (files demo_state_file) ''missing.bin'' = None"
    and some: "map_of (files demo_state_file) ''f.bin'' = Some demo_file"
    by (simp_all add: demo_state_file_def)
  have chunks: "f_chunks demo_file = [(0, [''dn2'', ''dn3'']), (1, [''dn2'', ''dn3'']), (2, [''dn2''])]"
    and sz: "f_size demo_file = 10" "f_chunk_size demo_file = 4"
    by (simp_all add: demo_file_def)
  have all_live: "\<forall>(c, ids) \<in> set (f_chunks demo_file). \<exists>nid \<in> set ids. live 8 demo_state_file nid"
    using demo_live by (simp add: chunks)
  have one_dead: "\<exists>(c, ids) \<in> set (f_chunks demo_file). \<forall>nid \<in> set ids. \<not> live 100 demo_state_file nid"
    using demo_live by (simp add: chunks)
  note w8 = download_init_contract [of demo_state_file _ 8]
  note w100 = download_init_contract [of demo_state_file "''f.bin''" 100]
  from w8 [of "''missing.bin''"] none
  have a: "handle_download_init 8 ''missing.bin'' demo_state_file =
        (Error (FileNotFound ''missing.bin''), demo_state_file)"
    by blast
  from w8 [of "''f.bin''"] some all_live
  have "\<exists>locs. handle_download_init 8 ''f.bin'' demo_state_file =
                 (DownloadInitOk ''f.bin'' (f_size demo_file) (f_chunk_size demo_file) locs, demo_state_file)"
    by blast
  then have b: "\<exists>locs. handle_download_init 8 ''f.bin'' demo_state_file =
                 (DownloadInitOk ''f.bin'' 10 4 locs, demo_state_file)"
    by (simp only: sz)
  from w100 some one_dead
  have c: "\<exists>c. handle_download_init 100 ''f.bin'' demo_state_file =
              (Error (NoHealthyDataNodes c), demo_state_file)"
    by blast
  from none a some demo_live(1,3) b c show ?thesis by blast
qed

section \<open>The chunk keys of file records\<close>

lemma add_chunk_location_fields:
  "f_size (add_chunk_location c d m) = f_size m \<and>
   f_chunk_size (add_chunk_location c d m) = f_chunk_size m \<and>
   fst ` set (f_chunks (add_chunk_location c d m)) = insert c (fst ` set (f_chunks m))"
  by (auto simp: add_chunk_location_def AList.dom_update split: option.splits
      dest!: map_of_SomeD intro: rev_image_eqI)

lemma fold_add_chunk_location_fields:
  "f_size (fold (add_chunk_location c) ids m) = f_size m \<and>
   f_chunk_size (fold (add_chunk_location c) ids m) = f_chunk_size m \<and>
   fst ` set (f_chunks (fold (add_chunk_location c) ids m)) =
     (if ids = [] then fst ` set (f_chunks m) else insert c (fst ` set (f_chunks m)))"
  by (induction ids arbitrary: m) (simp_all add: add_chunk_location_fields)

lemma upload_complete_loop_Inl:
  "\<not> all_keys_parse chunks \<Longrightarrow> upload_complete_loop chunks m = Inl (PyException ValueError)"
  by (induction chunks m rule: upload_complete_loop.induct) (simp_all add: all_keys_parse_def)

lemma upload_complete_loop_Inr:
  "all_keys_parse chunks \<Longrightarrow>
     \<exists>m'. upload_complete_loop chunks m = Inr m' \<and> f_size m' = f_size m
        \<and> f_chunk_size m' = f_chunk_size m
        \<and> fst ` set (f_chunks m') = fst ` set (f_chunks m) \<union> set (supplied_keys chunks)"
proof (induction chunks m rule: upload_complete_loop.induct)
  case (1 m)
  then show ?case by simp
next
  case (2 ids rest m)
  then show ?case by (simp add: all_keys_parse_def)
next
  case (3 c ids rest m)
  from 3 have "all_keys_parse rest" by (simp add: all_keys_parse_def)
  from 3(1) [OF this] fold_add_chunk_location_fields [of c ids m] show ?case
    by (auto split: if_splits)
qed


lemma remove_chunk_location_fields:
  "f_size (remove_chunk_location c d m) = f_size m \<and>
   f_chunk_size (remove_chunk_location c d m) = f_chunk_size m \<and>
   map fst (f_chunks (remove_chunk_location c d m)) = map fst (f_chunks m)"
  by (auto simp: remove_chunk_location_def AList.update_keys split: option.splits
      dest!: map_of_SomeD intro: rev_image_eqI)

lemma fail_chunk_fields:
  "f_size (fail_chunk dead c m) = f_size m \<and>
   f_chunk_size (fail_chunk dead c m) = f_chunk_size m \<and>
   map fst (f_chunks (fail_chunk dead c m)) = map fst (f_chunks m)"
  unfolding fail_chunk_def
  by (induction dead arbitrary: m) (simp_all add: remove_chunk_location_fields)

lemma fold_fail_chunk_fields:
  "f_size (fold (fail_chunk dead) cs m) = f_size m \<and>
   f_chunk_size (fold (fail_chunk dead) cs m) = f_chunk_size m \<and>
   map fst (f_chunks (fold (fail_chunk dead) cs m)) = map fst (f_chunks m)"
  by (induction cs arbitrary: m) (simp_all add: fail_chunk_fields)

lemma chunk_keys_ok_fail_file: "chunk_keys_ok (fail_file dead m) = chunk_keys_ok m"
  unfolding chunk_keys_ok_def num_chunks_of_def fail_file_def
  by (simp only: fold_fail_chunk_fields)

lemma chunk_key_invariant_monitor:
  "chunk_key_invariant s \<Longrightarrow> chunk_key_invariant (heartbeat_monitor_pass now s)"
  by (simp add: chunk_key_invariant_def heartbeat_monitor_pass_def Let_def handle_node_failures_def
      mark_dead_def list_all_iff case_prod_unfold chunk_keys_ok_fail_file)

lemma chunk_key_invariant_other:
  assumes "chunk_key_invariant s" and "\<And>name sz chunks. r \<noteq> UploadComplete name sz chunks"
  shows "chunk_key_invariant (snd (handle_client now r s))"
proof (cases r)
  case (DeleteFile name)
  with assms(1) show ?thesis
    by (auto simp: chunk_key_invariant_def delete_file_def list_all_iff dest!: set_delete_subset)
next
  case (UploadComplete name sz chunks)
  with assms(2) [of name sz chunks] show ?thesis by simp
qed (use assms(1) in \<open>simp_all add: chunk_key_invariant_def register_datanode_def
        handle_heartbeat_def handle_upload_init_def handle_download_init_def list_files_def
        get_file_info_def get_cluster_status_def Let_def split: sum.splits option.splits\<close>)

lemma update_self_member: "(k, v) \<in> set (AList.update k v al)"
  by (induction al) auto

lemma chunk_key_invariant_upload_complete:
  assumes "chunk_key_invariant s"
  shows "chunk_key_invariant (snd (handle_upload_complete now name sz chunks s)) \<longleftrightarrow>
           complete_map (chunk_size s) (now, Request (UploadComplete name sz chunks))"
proof (cases "all_keys_parse chunks")
  case False
  with assms show ?thesis
    by (simp add: handle_upload_complete_def upload_complete_loop_Inl)
next
  case True
  let ?m0 = "new_FileMetadata now name sz (chunk_size s) (replication_factor s)"
  from upload_complete_loop_Inr [OF True, of ?m0] obtain m'
    where m': "upload_complete_loop chunks ?m0 = Inr m'" "f_size m' = sz"
      "f_chunk_size m' = chunk_size s" "fst ` set (f_chunks m') = set (supplied_keys chunks)"
    by (auto simp: new_FileMetadata_def)
  have ok: "chunk_keys_ok m' \<longleftrightarrow>
      set (supplied_keys chunks) = {0 ..< \<lceil>real_of_int sz / real_of_int (chunk_size s)\<rceil>}"
    by (simp add: chunk_keys_ok_def num_chunks_of_def m')
  have "chunk_key_invariant (s\<lparr>files := AList.update name m' (files s)\<rparr>) \<longleftrightarrow> chunk_keys_ok m'"
  proof
    assume "chunk_key_invariant (s\<lparr>files := AList.update name m' (files s)\<rparr>)"
    with update_self_member [of name m' "files s"] show "chunk_keys_ok m'"
      by (fastforce simp: chunk_key_invariant_def list_all_iff)
  next
    assume "chunk_keys_ok m'"
    with assms show "chunk_key_invariant (s\<lparr>files := AList.update name m' (files s)\<rparr>)"
      by (auto simp: chunk_key_invariant_def list_all_iff dest!: set_update_cases)
  qed
  with ok True m'(1) show ?thesis by (simp add: handle_upload_complete_def)
qed

lemma chunk_key_invariant_step:
  assumes "chunk_key_invariant s" "complete_map (chunk_size s) e"
  shows "chunk_key_invariant (step e s)"
proof (cases e)
  case (Pair now ev)
  show ?thesis
  proof (cases ev)
    case MonitorPass
    with Pair assms(1) show ?thesis by (simp add: chunk_key_invariant_monitor)
  next
    case (Request r)
    show ?thesis
    proof (cases "\<exists>name sz chunks. r = UploadComplete name sz chunks")
      case True
      with Pair Request assms show ?thesis
        using chunk_key_invariant_upload_complete [OF assms(1)] by auto
    next
      case False
      with Pair Request chunk_key_invariant_other [OF assms(1), of r now] show ?thesis by auto
    qed
  qed
qed

lemma chunk_key_invariant_run:
  "chunk_key_invariant s \<Longrightarrow> list_all (complete_map (chunk_size s)) evs \<Longrightarrow>
     chunk_key_invariant (run evs s)"
proof (induction evs arbitrary: s)
  case Nil
  then show ?case by (simp add: run_def)
next
  case (Cons e evs)
  from Cons.prems have 1: "chunk_key_invariant (step e s)"
    by (simp add: chunk_key_invariant_step)
  from Cons.prems have 2: "list_all (complete_map (chunk_size (step e s))) evs"
    by (simp add: config_step)
  from Cons.IH [OF 1 2] show ?case by (simp add: run_def)
qed


text \<open>
  C2 as stated does not hold: upload_complete installs whatever keys the request carries.
  In the cluster of three DataNodes, a request for a file of 10 bytes (chunk size 4, so three
  chunks) that reports the chunks 0 and 1 only is accepted, and the file record has the keys
  0 and 1.
\<close>

theorem chunk_key_invariant_counterexample:
  "run (demo_events @ [(7, Request (UploadComplete ''f.bin'' 10 demo_partial_chunks))])
       (new_NameNode 4 2) = demo_state\<lparr>files := [(''f.bin'', demo_partial_file)]\<rparr>
   \<and> set (map fst (f_chunks demo_partial_file)) = {0, 1}
   \<and> {0 ..< \<lceil>real_of_int (f_size demo_partial_file) / real_of_int (f_chunk_size demo_partial_file)\<rceil>}
       = {0, 1, 2}
   \<and> \<not> chunk_key_invariant
         (run (demo_events @ [(7, Request (UploadComplete ''f.bin'' 10 demo_partial_chunks))])
              (new_NameNode 4 2))"
proof -
  have "run (demo_events @ [(7, Request (UploadComplete ''f.bin'' 10 demo_partial_chunks))]) (new_NameNode 4 2)
      = snd (handle_upload_complete 7 ''f.bin'' 10 demo_partial_chunks demo_state)"
    using demo_run by (simp add: run_def)
  also have "\<dots> = demo_state\<lparr>files := [(''f.bin'', demo_partial_file)]\<rparr>"
    by (simp add: handle_upload_complete_def demo_partial_chunks_def demo_state_def
        demo_partial_file_def new_FileMetadata_def add_chunk_location_def)
  finally have r: "run (demo_events @ [(7, Request (UploadComplete ''f.bin'' 10 demo_partial_chunks))])
       (new_NameNode 4 2) = demo_state\<lparr>files := [(''f.bin'', demo_partial_file)]\<rparr>" .
  have k: "set (map fst (f_chunks demo_partial_file)) = {0, 1}"
    by (auto simp: demo_partial_file_def)
  have "\<lceil>real_of_int (f_size demo_partial_file) / real_of_int (f_chunk_size demo_partial_file)\<rceil> = 3"
    by (simp add: demo_partial_file_def)
  then have n: "{0 ..< \<lceil>real_of_int (f_size demo_partial_file) / real_of_int (f_chunk_size demo_partial_file)\<rceil>}
       = {0, 1, 2}"
    by auto
  have "(2::int) \<notin> {0, 1}" by simp
  with k n have "\<not> chunk_keys_ok demo_partial_file"
    unfolding chunk_keys_ok_def num_chunks_of_def by (metis insertI1 insert_commute)
  then have "\<not> chunk_key_invariant (demo_state\<lparr>files := [(''f.bin'', demo_partial_file)]\<rparr>)"
    by (simp add: chunk_key_invariant_def)
  with r k n show ?thesis by simp
qed

text \<open>
  C2, amended: the liveness scanner and every request other than upload_complete keep the
  keys of every file record equal to \<open>0 .. \<lceil>size / chunk_size\<rceil> - 1\<close>. An upload_complete
  request keeps this exactly when a key of its map does not parse (the request fails and
  nothing is installed) or the keys that come with at least one DataNode id are
  \<open>0 .. \<lceil>size / chunk_size\<rceil> - 1\<close>. Hence the property holds in every state reached by a
  run all of whose upload_complete requests are of that kind.
\<close>

theorem chunk_keys_amended:
  assumes "0 < cs"
  shows "(list_all (complete_map cs) evs \<longrightarrow> chunk_key_invariant (run evs (new_NameNode cs rf)))
     \<and> (\<forall>s. chunk_size s = cs \<and> chunk_key_invariant s \<longrightarrow>
          chunk_key_invariant (heartbeat_monitor_pass now s)
          \<and> (\<forall>r. (\<forall>name sz chunks. r \<noteq> UploadComplete name sz chunks) \<longrightarrow>
                 chunk_key_invariant (snd (handle_client now r s)))
          \<and> (\<forall>name sz chunks.
                 chunk_key_invariant (snd (handle_client now (UploadComplete name sz chunks) s)) \<longleftrightarrow>
                   (all_keys_parse chunks \<longrightarrow>
                      set (supplied_keys chunks) = {0 ..< \<lceil>real_of_int sz / real_of_int cs\<rceil>})))"
proof (intro conjI impI allI)
  assume "list_all (complete_map cs) evs"
  with chunk_key_invariant_run [of "new_NameNode cs rf" evs]
  show "chunk_key_invariant (run evs (new_NameNode cs rf))"
    by (simp add: new_NameNode_def chunk_key_invariant_def)
next
  fix s assume "chunk_size s = cs \<and> chunk_key_invariant s"
  then show "chunk_key_invariant (heartbeat_monitor_pass now s)"
    by (simp add: chunk_key_invariant_monitor)
next
  fix s r assume "chunk_size s = cs \<and> chunk_key_invariant s"
    and "\<forall>name sz chunks. r \<noteq> UploadComplete name sz chunks"
  then show "chunk_key_invariant (snd (handle_client now r s))"
    by (intro chunk_key_invariant_other) simp_all
next
  fix s name sz chunks assume "chunk_size s = cs \<and> chunk_key_invariant s"
  with chunk_key_invariant_upload_complete [of s now name sz chunks]
  show "chunk_key_invariant (snd (handle_client now (UploadComplete name sz chunks) s)) \<longleftrightarrow>
                   (all_keys_parse chunks \<longrightarrow>
                      set (supplied_keys chunks) = {0 ..< \<lceil>real_of_int sz / real_of_int cs\<rceil>})"
    by simp
qed

theorem chunk_keys_amended_witness:
  "(0::int) < 4
   \<and> list_all (complete_map 4) (demo_events @ [(7, Request (UploadComplete ''f.bin'' 10 demo_chunks))])
   \<and> chunk_key_invariant
       (run (demo_events @ [(7, Request (UploadComplete ''f.bin'' 10 demo_chunks))]) (new_NameNode 4 2))
   \<and> files (run (demo_events @ [(7, Request (UploadComplete ''f.bin'' 10 demo_chunks))]) (new_NameNode 4 2))
       = [(''f.bin'', demo_file)]"
proof -
  have h: "(0::int) < 4" by simp
  have "{0 ..< (3::int)} = {0, 1, 2}" by auto
  then have c: "list_all (complete_map 4)
      (demo_events @ [(7, Request (UploadComplete ''f.bin'' 10 demo_chunks))])"
    by (auto simp: demo_events_def demo_chunks_def all_keys_parse_def)
  from chunk_keys_amended [OF h, of "demo_events @ [(7, Request (UploadComplete ''f.bin'' 10 demo_chunks))]" 2] c
  have "chunk_key_invariant
       (run (demo_events @ [(7, Request (UploadComplete ''f.bin'' 10 demo_chunks))]) (new_NameNode 4 2))"
    by blast
  with h c show ?thesis by (simp add: demo_run_file demo_state_file_def)
qed

section \<open>The liveness scanner\<close>

lemma fail_chunk_eq: "fail_chunk dead c m = m\<lparr>f_chunks := purge_key dead c (f_chunks m)\<rparr>"
proof (induction dead arbitrary: m)
  case Nil
  show ?case
    by (cases "map_of (f_chunks m) c") (simp_all add: fail_chunk_def purge_key_def AList.update_triv)
next
  case (Cons d dead)
  have step: "fail_chunk (d # dead) c m = fail_chunk dead c (remove_chunk_location c d m)"
    by (simp add: fail_chunk_def)
  show ?case
  proof (cases "map_of (f_chunks m) c")
    case None
    then have "remove_chunk_location c d m = m" by (simp add: remove_chunk_location_def)
    with None Cons.IH [of m] step show ?thesis by (simp add: purge_key_def)
  next
    case (Some locs)
    show ?thesis
    proof (cases "d \<in> set locs")
      case True
      with Some have r: "remove_chunk_location c d m =
          m\<lparr>f_chunks := AList.update c (remove1 d locs) (f_chunks m)\<rparr>"
        by (simp add: remove_chunk_location_def)
      show ?thesis unfolding step r Cons.IH
        using Some by (simp add: purge_key_def AList.update_conv')
    next
      case False
      with Some have "remove_chunk_location c d m = m" by (simp add: remove_chunk_location_def)
      with Some False Cons.IH [of m] step show ?thesis
        by (simp add: purge_key_def remove1_idem)
    qed
  qed
qed

lemma fold_fail_chunk_eq:
  "fold (fail_chunk dead) ks m = m\<lparr>f_chunks := fold (purge_key dead) ks (f_chunks m)\<rparr>"
  by (induction ks arbitrary: m) (simp_all add: fail_chunk_eq)

lemma fold_purge_key:
  "distinct (map fst (xs @ ys)) \<Longrightarrow>
     fold (purge_key dead) (map fst ys) (xs @ ys) =
       xs @ map (\<lambda>(c, locs). (c, fold remove1 dead locs)) ys"
proof (induction ys arbitrary: xs)
  case Nil
  then show ?case by simp
next
  case (Cons y ys)
  obtain c locs where y: "y = (c, locs)" by (cases y)
  from Cons.prems y have fresh: "c \<notin> fst ` set xs" by auto
  then have "map_of (xs @ (c, locs) # ys) c = Some locs"
    by (simp add: map_add_def map_of_eq_None_iff [THEN iffD2])
  with fresh have p: "purge_key dead c (xs @ (c, locs) # ys) =
      (xs @ [(c, fold remove1 dead locs)]) @ ys"
    by (simp add: purge_key_def update_middle)
  have d: "distinct (map fst ((xs @ [(c, fold remove1 dead locs)]) @ ys))"
    using Cons.prems y by simp
  from Cons.IH [OF d] p y show ?case by simp
qed

lemma fail_file_eq:
  assumes "distinct (map fst (f_chunks m))"
  shows "fail_file dead m =
     m\<lparr>f_chunks := map (\<lambda>(c, locs). (c, fold remove1 dead locs)) (f_chunks m)\<rparr>"
  using fold_purge_key [of "[]" "f_chunks m" dead] assms
  by (simp add: fail_file_def fold_fail_chunk_eq)

lemma set_fold_remove1:
  "distinct locs \<Longrightarrow> set (fold remove1 dead locs) = set locs - set dead"
  by (induction dead arbitrary: locs) auto


lemma replica_ids_iff:
  "nid \<in> replica_ids s \<longleftrightarrow>
     (\<exists>name m c locs. (name, m) \<in> set (files s) \<and> (c, locs) \<in> set (f_chunks m) \<and> nid \<in> set locs)"
  unfolding replica_ids_def by (simp add: case_prod_unfold Bex_def)

lemma replica_ids_failures:
  assumes "files_ok s"
  shows "replica_ids (handle_node_failures dead s) = replica_ids s - set dead"
proof -
  have ok: "\<And>name m. (name, m) \<in> set (files s) \<Longrightarrow> file_ok m"
    using assms by (auto simp: files_ok_def)
  have ch: "\<And>name m. (name, m) \<in> set (files s) \<Longrightarrow>
      f_chunks (fail_file dead m) = map (\<lambda>(c, locs). (c, fold remove1 dead locs)) (f_chunks m)"
    using ok by (simp add: fail_file_eq file_ok_def)
  have di: "set (fold remove1 dead locs) = set locs - set dead"
    if "(name, m) \<in> set (files s)" "(c, locs) \<in> set (f_chunks m)" for name m c locs
  proof -
    from ok [OF that(1)] that(2) have "distinct locs" unfolding file_ok_def by blast
    then show ?thesis by (rule set_fold_remove1)
  qed
  show ?thesis
  proof (intro set_eqI iffI)
    fix nid assume "nid \<in> replica_ids (handle_node_failures dead s)"
    then obtain name m c locs where m: "(name, m) \<in> set (files s)"
      and c: "(c, locs) \<in> set (f_chunks (fail_file dead m))" and n: "nid \<in> set locs"
      by (auto simp: replica_ids_iff handle_node_failures_def)
    from c ch [OF m] obtain locs0 where l0: "(c, locs0) \<in> set (f_chunks m)"
      and "locs = fold remove1 dead locs0"
      by auto
    with n di [OF m l0] have "nid \<in> set locs0 - set dead" by simp
    with m l0 show "nid \<in> replica_ids s - set dead" by (auto simp: replica_ids_iff)
  next
    fix nid assume "nid \<in> replica_ids s - set dead"
    then obtain name m c locs where m: "(name, m) \<in> set (files s)"
      and c: "(c, locs) \<in> set (f_chunks m)" and n: "nid \<in> set locs" "nid \<notin> set dead"
      by (auto simp: replica_ids_iff)
    from m have 1: "(name, fail_file dead m) \<in> set (files (handle_node_failures dead s))"
      by (force simp: handle_node_failures_def)
    from c ch [OF m] have 2: "(c, fold remove1 dead locs) \<in> set (f_chunks (fail_file dead m))"
      by force
    from n di [OF m c] have 3: "nid \<in> set (fold remove1 dead locs)" by simp
    from 1 2 3 show "nid \<in> replica_ids (handle_node_failures dead s)"
      unfolding replica_ids_iff by blast
  qed
qed

lemma replica_ids_monitor:
  assumes "files_ok s"
  shows "replica_ids (heartbeat_monitor_pass now s) = replica_ids s - set (dead_nodes_of now s)"
proof -
  have f: "files (mark_dead now s) = files s" by (simp add: mark_dead_def)
  then have r: "replica_ids (mark_dead now s) = replica_ids s" by (simp add: replica_ids_def)
  have ok: "files_ok (mark_dead now s)" using assms f by (simp add: files_ok_def)
  show ?thesis
    using replica_ids_failures [OF ok, of "dead_nodes_of now s"] r
    by (simp add: heartbeat_monitor_pass_def Let_def)
qed

lemma map_of_mark_dead:
  "map_of (datanodes (mark_dead now s)) nid =
     map_option (\<lambda>n. if \<not> is_healthy now n \<and> is_alive n then n\<lparr>is_alive := False\<rparr> else n)
       (map_of (datanodes s) nid)"
proof -
  have "map_of (map (\<lambda>(nid, n). if \<not> is_healthy now n \<and> is_alive n
                                   then (nid, n\<lparr>is_alive := False\<rparr>) else (nid, n)) al) nid =
     map_option (\<lambda>n. if \<not> is_healthy now n \<and> is_alive n then n\<lparr>is_alive := False\<rparr> else n)
       (map_of al nid)" for al
    by (induction al) auto
  then show ?thesis by (simp add: mark_dead_def)
qed

lemma datanodes_monitor: "datanodes (heartbeat_monitor_pass now s) = datanodes (mark_dead now s)"
  by (simp add: heartbeat_monitor_pass_def Let_def handle_node_failures_def)

lemma dead_nodes_of_member:
  "map_of (datanodes s) nid = Some n \<Longrightarrow> \<not> is_healthy now n \<Longrightarrow> is_alive n \<Longrightarrow>
     nid \<in> set (dead_nodes_of now s)"
  by (force simp: dead_nodes_of_def dest!: map_of_SomeD)


lemma fold_remove1_filter:
  "distinct locs \<Longrightarrow> fold remove1 dead locs = filter (\<lambda>nid. nid \<notin> set dead) locs"
proof (induction dead arbitrary: locs)
  case Nil
  then show ?case by simp
next
  case (Cons d dead)
  have r: "remove1 d locs = filter (\<lambda>nid. d \<noteq> nid) locs"
    using Cons.prems by (simp add: distinct_remove1_removeAll removeAll_filter_not_eq)
  have "distinct (remove1 d locs)" using Cons.prems by simp
  from Cons.IH [OF this]
  have "fold remove1 (d # dead) locs = filter (\<lambda>nid. nid \<notin> set dead) (remove1 d locs)" by simp
  also have "\<dots> = filter (\<lambda>nid. nid \<notin> set (d # dead)) locs"
    unfolding r by (auto intro!: filter_cong)
  finally show ?case .
qed

lemma files_failures:
  assumes "files_ok s"
  shows "files (handle_node_failures dead s) =
       map (\<lambda>(name, m). (name, m\<lparr>f_chunks :=
              map (\<lambda>(c, locs). (c, filter (\<lambda>nid. nid \<notin> set dead) locs)) (f_chunks m)\<rparr>))
         (files s)"
proof -
  have "fail_file dead m = m\<lparr>f_chunks :=
              map (\<lambda>(c, locs). (c, filter (\<lambda>nid. nid \<notin> set dead) locs)) (f_chunks m)\<rparr>"
    if "(name, m) \<in> set (files s)" for name m
  proof -
    from assms that have fo: "file_ok m" by (auto simp: files_ok_def)
    then have d: "distinct (map fst (f_chunks m))" by (simp add: file_ok_def)
    have "map (\<lambda>(c, locs). (c, fold remove1 dead locs)) (f_chunks m) =
        map (\<lambda>(c, locs). (c, filter (\<lambda>nid. nid \<notin> set dead) locs)) (f_chunks m)"
    proof (rule map_cong [OF refl])
      fix x assume x: "x \<in> set (f_chunks m)"
      obtain c locs where cl: "x = (c, locs)" by (cases x)
      with x fo have "distinct locs" unfolding file_ok_def by blast
      with cl show "(case x of (c, locs) \<Rightarrow> (c, fold remove1 dead locs)) =
          (case x of (c, locs) \<Rightarrow> (c, filter (\<lambda>nid. nid \<notin> set dead) locs))"
        by (simp add: fold_remove1_filter)
    qed
    with fail_file_eq [OF d, of dead] show ?thesis by simp
  qed
  then show ?thesis
    unfolding handle_node_failures_def by (auto intro!: map_cong)
qed

lemma files_monitor:
  assumes "files_ok s"
  shows "files (heartbeat_monitor_pass now s) =
       map (\<lambda>(name, m). (name, m\<lparr>f_chunks :=
              map (\<lambda>(c, locs). (c, filter (\<lambda>nid. nid \<notin> set (dead_nodes_of now s)) locs))
                (f_chunks m)\<rparr>))
         (files s)"
proof (cases "dead_nodes_of now s = []")
  case True
  have "files (heartbeat_monitor_pass now s) = files s"
    using True by (simp add: heartbeat_monitor_pass_def mark_dead_def)
  also have "files s = map (\<lambda>(name, m). (name, m\<lparr>f_chunks :=
              map (\<lambda>(c, locs). (c, filter (\<lambda>nid. nid \<notin> set (dead_nodes_of now s)) locs))
                (f_chunks m)\<rparr>)) (files s)"
    unfolding True by (simp add: case_prod_unfold)
  finally show ?thesis .
next
  case False
  have f: "files (mark_dead now s) = files s" by (simp add: mark_dead_def)
  then have ok: "files_ok (mark_dead now s)" using assms by (simp add: files_ok_def)
  from files_failures [OF ok, of "dead_nodes_of now s"] False f show ?thesis
    by (simp add: heartbeat_monitor_pass_def Let_def)
qed

lemma dead_nodes_of_iff:
  "distinct (map fst (datanodes s)) \<Longrightarrow>
     nid \<in> set (dead_nodes_of now s) \<longleftrightarrow>
       (\<exists>n. map_of (datanodes s) nid = Some n \<and> \<not> is_healthy now n \<and> is_alive n)"
  by (force simp: dead_nodes_of_def dest: map_of_SomeD)


lemma race_run: "run race_events (new_NameNode 4 1) = race_state"
  by (simp add: race_events_def race_state_def race_dn1_def run_simps handle_upload_init_def
      Let_def select_datanodes_for_chunk_def healthy_nodes_def is_healthy_def py_take_def
      to_entry_def heartbeat_monitor_pass_def dead_nodes_of_def mark_dead_def
      handle_node_failures_def handle_upload_complete_def new_FileMetadata_def
      add_chunk_location_def)

text \<open>
  C5 as stated does not hold: a pass of the scanner purges only the nodes it marks dead in
  that pass. In the run \<open>race_events\<close> the node \<open>dn1\<close> is marked dead at time 30, enters
  the replica list of chunk 0 at time 31, and is still there after the pass at time 40, with
  its \<open>is_alive\<close> flag off and no heartbeat for 40 seconds.
\<close>

theorem scanner_purge_counterexample:
  "run race_events (new_NameNode 4 1) = race_state
   \<and> heartbeat_monitor_pass 40 race_state = race_state
   \<and> ''dn1'' \<in> replica_ids race_state
   \<and> map_of (datanodes race_state) ''dn1'' = Some race_dn1
   \<and> \<not> is_alive race_dn1 \<and> \<not> is_healthy 40 race_dn1"
proof -
  have "heartbeat_monitor_pass 40 race_state = race_state"
    by (simp add: race_state_def race_dn1_def heartbeat_monitor_pass_def dead_nodes_of_def
        mark_dead_def is_healthy_def)
  moreover have "''dn1'' \<in> replica_ids race_state"
    by (simp add: replica_ids_def race_state_def)
  moreover have "map_of (datanodes race_state) ''dn1'' = Some race_dn1"
    by (simp add: race_state_def)
  moreover have "\<not> is_alive race_dn1 \<and> \<not> is_healthy 40 race_dn1"
    by (simp add: race_dn1_def is_healthy_def)
  ultimately show ?thesis using race_run by blast
qed

text \<open>
  C5, amended: on every run, a pass of the scanner removes from every replica list exactly
  the ids it collects in \<open>dead_nodes\<close>, the nodes that are not healthy and whose \<open>is_alive\<close>
  flag is still on, which it marks dead. Every replica list after the pass is the list
  before the pass without these ids: every other id stays, in its place, and nothing else
  of the file index changes. So if before the pass no replica list holds the id of a node
  already marked dead, then after the pass every id in a replica list that has a record in
  the registry is marked alive and is healthy.
\<close>

theorem scanner_purge_amended:
  assumes "chronological evs now" and "s = run evs (new_NameNode cs rf)"
  shows "files (heartbeat_monitor_pass now s) =
       map (\<lambda>(name, m). (name, m\<lparr>f_chunks :=
              map (\<lambda>(c, locs). (c, filter (\<lambda>nid. nid \<notin> set (dead_nodes_of now s)) locs))
                (f_chunks m)\<rparr>))
         (files s)
     \<and> (\<forall>nid. nid \<in> set (dead_nodes_of now s) \<longleftrightarrow>
          (\<exists>n. map_of (datanodes s) nid = Some n \<and> \<not> is_healthy now n \<and> is_alive n))
     \<and> replica_ids (heartbeat_monitor_pass now s) = replica_ids s - set (dead_nodes_of now s)
     \<and> (\<forall>nid \<in> set (dead_nodes_of now s). nid \<notin> replica_ids (heartbeat_monitor_pass now s))
     \<and> ((\<forall>nid \<in> replica_ids s. \<forall>n. map_of (datanodes s) nid = Some n \<longrightarrow> is_alive n) \<longrightarrow>
         (\<forall>nid \<in> replica_ids (heartbeat_monitor_pass now s). \<forall>n.
             map_of (datanodes (heartbeat_monitor_pass now s)) nid = Some n \<longrightarrow>
               is_alive n \<and> is_healthy now n))"
proof -
  have ok: "files_ok s" and rok: "registry_ok now s"
    using run_invariant [OF assms(1)] assms(2) by simp_all
  have fl: "files (heartbeat_monitor_pass now s) =
       map (\<lambda>(name, m). (name, m\<lparr>f_chunks :=
              map (\<lambda>(c, locs). (c, filter (\<lambda>nid. nid \<notin> set (dead_nodes_of now s)) locs))
                (f_chunks m)\<rparr>))
         (files s)"
    using ok by (rule files_monitor)
  have dd: "\<forall>nid. nid \<in> set (dead_nodes_of now s) \<longleftrightarrow>
          (\<exists>n. map_of (datanodes s) nid = Some n \<and> \<not> is_healthy now n \<and> is_alive n)"
    using rok by (simp add: dead_nodes_of_iff registry_ok_def)
  have eq: "replica_ids (heartbeat_monitor_pass now s) = replica_ids s - set (dead_nodes_of now s)"
    using ok by (rule replica_ids_monitor)
  have gone: "\<forall>nid \<in> set (dead_nodes_of now s). nid \<notin> replica_ids (heartbeat_monitor_pass now s)"
    unfolding eq by simp
  have third: "(\<forall>nid \<in> replica_ids s. \<forall>n. map_of (datanodes s) nid = Some n \<longrightarrow> is_alive n) \<longrightarrow>
         (\<forall>nid \<in> replica_ids (heartbeat_monitor_pass now s). \<forall>n.
             map_of (datanodes (heartbeat_monitor_pass now s)) nid = Some n \<longrightarrow>
               is_alive n \<and> is_healthy now n)"
  proof (intro ballI allI impI)
    fix nid n
    assume pre: "\<forall>nid \<in> replica_ids s. \<forall>n. map_of (datanodes s) nid = Some n \<longrightarrow> is_alive n"
      and r: "nid \<in> replica_ids (heartbeat_monitor_pass now s)"
      and m: "map_of (datanodes (heartbeat_monitor_pass now s)) nid = Some n"
    from r eq have in_s: "nid \<in> replica_ids s" and nd: "nid \<notin> set (dead_nodes_of now s)"
      by simp_all
    from m obtain n0 where n0: "map_of (datanodes s) nid = Some n0"
      and n: "n = (if \<not> is_healthy now n0 \<and> is_alive n0 then n0\<lparr>is_alive := False\<rparr> else n0)"
      by (auto simp: datanodes_monitor map_of_mark_dead)
    from pre in_s n0 have al: "is_alive n0" by blast
    from nd dead_nodes_of_member [OF n0] al have "is_healthy now n0" by blast
    with al n show "is_alive n \<and> is_healthy now n" by simp
  qed
  show ?thesis
    by (intro conjI) (rule fl dd eq gone third)+
qed

theorem scanner_purge_amended_witness:
  "chronological (demo_events @ [(7, Request (UploadComplete ''f.bin'' 10 demo_chunks))]) 34
   \<and> dead_nodes_of 34 demo_state_file = [''dn1'', ''dn2'']
   \<and> f_chunks demo_file = [(0, [''dn2'', ''dn3'']), (1, [''dn2'', ''dn3'']), (2, [''dn2''])]
   \<and> files (heartbeat_monitor_pass 34
        (run (demo_events @ [(7, Request (UploadComplete ''f.bin'' 10 demo_chunks))]) (new_NameNode 4 2)))
      = [(''f.bin'', demo_file\<lparr>f_chunks := [(0, [''dn3'']), (1, [''dn3'']), (2, [])]\<rparr>)]
   \<and> replica_ids demo_state_file = {''dn2'', ''dn3''}
   \<and> replica_ids (heartbeat_monitor_pass 34
        (run (demo_events @ [(7, Request (UploadComplete ''f.bin'' 10 demo_chunks))]) (new_NameNode 4 2)))
      = {''dn3''}"
proof -
  let ?evs = "demo_events @ [(7, Request (UploadComplete ''f.bin'' 10 demo_chunks))]"
  have h: "chronological ?evs 34"
    by (simp add: chronological_def demo_events_def)
  have d: "dead_nodes_of 34 demo_state_file = [''dn1'', ''dn2'']"
    by (simp add: dead_nodes_of_def demo_state_file_def demo_state_def is_healthy_def)
  have c: "f_chunks demo_file = [(0, [''dn2'', ''dn3'']), (1, [''dn2'', ''dn3'']), (2, [''dn2''])]"
    by (simp add: demo_file_def)
  have f: "files demo_state_file = [(''f.bin'', demo_file)]"
    by (simp add: demo_state_file_def)
  have r: "replica_ids demo_state_file = {''dn2'', ''dn3''}"
    by (auto simp: replica_ids_def demo_state_file_def demo_file_def)
  note w = scanner_purge_amended [OF h refl, of 4 2]
  from w have "files (heartbeat_monitor_pass 34 (run ?evs (new_NameNode 4 2))) =
       map (\<lambda>(name, m). (name, m\<lparr>f_chunks :=
              map (\<lambda>(c, locs). (c, filter (\<lambda>nid. nid \<notin> set (dead_nodes_of 34 (run ?evs (new_NameNode 4 2)))) locs))
                (f_chunks m)\<rparr>))
         (files (run ?evs (new_NameNode 4 2)))"
    by (rule conjunct1)
  then have a: "files (heartbeat_monitor_pass 34 (run ?evs (new_NameNode 4 2)))
      = [(''f.bin'', demo_file\<lparr>f_chunks := [(0, [''dn3'']), (1, [''dn3'']), (2, [])]\<rparr>)]"
    unfolding demo_run_file d f by (simp add: c)
  from w
  have "replica_ids (heartbeat_monitor_pass 34 (run ?evs (new_NameNode 4 2)))
      = replica_ids (run ?evs (new_NameNode 4 2)) - set (dead_nodes_of 34 (run ?evs (new_NameNode 4 2)))"
    by blast
  then have b: "replica_ids (heartbeat_monitor_pass 34 (run ?evs (new_NameNode 4 2))) = {''dn3''}"
    unfolding demo_run_file d r by auto
  from h d c a r b show ?thesis by (intro conjI)
qed

section \<open>Storing a chunk\<close>

lemma take_segment_nonempty:
  "0 < n \<Longrightarrow> concat segs \<noteq> [] \<Longrightarrow>
     fst (take_segment n segs) \<noteq> [] \<and>
     fst (take_segment n segs) @ concat (snd (take_segment n segs)) = concat segs"
  by (induction n segs rule: take_segment.induct) auto

lemma take_segment_empty:
  "concat segs = [] \<Longrightarrow> take_segment n segs = ([], [])"
  by (induction n segs rule: take_segment.induct) auto


lemma take_segment_length: "length (fst (take_segment n segs)) \<le> n"
  by (induction n segs rule: take_segment.induct) auto

lemma recv_data:
  assumes "0 < n" "concat (incoming sock) \<noteq> []"
  shows "\<exists>d sock'. recv n sock = (Inr d, sock') \<and> d \<noteq> [] \<and> length d \<le> n
           \<and> d @ concat (incoming sock') = concat (incoming sock)
           \<and> ending sock' = ending sock \<and> writable sock' = writable sock \<and> sent sock' = sent sock"
proof -
  obtain d rest where t: "take_segment n (incoming sock) = (d, rest)" by (cases "take_segment n (incoming sock)")
  from take_segment_nonempty [OF assms] t have d: "d \<noteq> []" "d @ concat rest = concat (incoming sock)"
    by simp_all
  from take_segment_length [of n "incoming sock"] t have "length d \<le> n" by simp
  with d t show ?thesis by (simp add: recv_def)
qed

lemma recv_end:
  assumes "concat (incoming sock) = []"
  shows "recv n sock = (if ending sock = Reset then Inl IOError else Inr [], sock\<lparr>incoming := []\<rparr>)"
  using take_segment_empty [OF assms, of n] by (simp add: recv_def)

lemma receive_loop_complete:
  "remaining \<le> int (length (concat (incoming sock))) \<Longrightarrow>
     \<exists>sock'. receive_loop remaining acc sock =
               (Inr (acc @ take (nat remaining) (concat (incoming sock))), sock')
        \<and> writable sock' = writable sock \<and> sent sock' = sent sock"
proof (induction remaining acc sock rule: receive_loop.induct)
  case (1 remaining chunk_data sock)
  show ?case
  proof (cases "0 < remaining")
    case False
    then show ?thesis by (subst receive_loop.simps) simp
  next
    case True
    with "1.prems" have "0 < length (concat (incoming sock))" by linarith
    then have ne: "concat (incoming sock) \<noteq> []" by (rule length_greater_0_conv [THEN iffD1])
    from True have n: "0 < nat (min 8192 remaining)" by simp
    from recv_data [OF n ne] obtain d sock1
      where r: "recv (nat (min 8192 remaining)) sock = (Inr d, sock1)" and d: "d \<noteq> []"
        and len: "length d \<le> nat (min 8192 remaining)"
        and cat: "d @ concat (incoming sock1) = concat (incoming sock)"
        and same: "writable sock1 = writable sock" "sent sock1 = sent sock"
      by blast
    from len True have len': "int (length d) \<le> remaining" by simp
    from cat have "length (concat (incoming sock)) = length d + length (concat (incoming sock1))"
      by (metis length_append)
    with "1.prems" have pre: "remaining - int (length d) \<le> int (length (concat (incoming sock1)))"
      by simp
    from "1.IH" [OF True r [symmetric] refl d pre] obtain sock'
      where rec: "receive_loop (remaining - int (length d)) (chunk_data @ d) sock1 =
          (Inr ((chunk_data @ d) @ take (nat (remaining - int (length d))) (concat (incoming sock1))), sock')"
        and same': "writable sock' = writable sock1" "sent sock' = sent sock1"
      by blast
    have "take (nat remaining) (concat (incoming sock)) =
        d @ take (nat (remaining - int (length d))) (concat (incoming sock1))"
      using len' unfolding cat [symmetric] by (simp add: nat_diff_distrib')
    with rec same same' r d True show ?thesis
      by (subst receive_loop.simps) simp
  qed
qed


lemma receive_loop_short:
  "int (length (concat (incoming sock))) < remaining \<Longrightarrow>
     \<exists>sock'. receive_loop remaining acc sock =
               (if ending sock = Reset then Inl IOError else Inr (acc @ concat (incoming sock)), sock')
        \<and> writable sock' = writable sock \<and> sent sock' = sent sock"
proof (induction remaining acc sock rule: receive_loop.induct)
  case (1 remaining chunk_data sock)
  from "1.prems" have pos: "0 < remaining" by linarith
  then have n: "0 < nat (min 8192 remaining)" by simp
  show ?case
  proof (cases "concat (incoming sock) = []")
    case True
    from recv_end [OF True, of "nat (min 8192 remaining)"] pos True show ?thesis
      by (subst receive_loop.simps) simp
  next
    case False
    from recv_data [OF n False] obtain d sock1
      where r: "recv (nat (min 8192 remaining)) sock = (Inr d, sock1)" and d: "d \<noteq> []"
        and cat: "d @ concat (incoming sock1) = concat (incoming sock)"
        and same: "ending sock1 = ending sock" "writable sock1 = writable sock" "sent sock1 = sent sock"
      by blast
    from cat have "length (concat (incoming sock)) = length d + length (concat (incoming sock1))"
      by (metis length_append)
    with "1.prems" have pre: "int (length (concat (incoming sock1))) < remaining - int (length d)"
      by simp
    from "1.IH" [OF pos r [symmetric] refl d pre] obtain sock'
      where rec: "receive_loop (remaining - int (length d)) (chunk_data @ d) sock1 =
          (if ending sock1 = Reset then Inl IOError
           else Inr ((chunk_data @ d) @ concat (incoming sock1)), sock')"
        and same': "writable sock' = writable sock1" "sent sock' = sent sock1"
      by blast
    from rec same same' r d pos cat show ?thesis
      by (subst receive_loop.simps) (simp flip: cat)
  qed
qed

lemma receive_loop_result:
  "\<exists>sock'. receive_loop n [] sock =
       (if ending sock = Reset \<and> int (length (concat (incoming sock))) < n then Inl IOError
        else Inr (take (nat n) (concat (incoming sock))), sock')
     \<and> writable sock' = writable sock \<and> sent sock' = sent sock"
proof (cases "int (length (concat (incoming sock))) < n")
  case True
  then have "take (nat n) (concat (incoming sock)) = concat (incoming sock)" by simp
  with receive_loop_short [OF True, of "[]"] True show ?thesis by auto
next
  case False
  then have "n \<le> int (length (concat (incoming sock)))" by simp
  from receive_loop_complete [OF this, of "[]"] False show ?thesis by auto
qed

lemma store_chunk_ready_fails:
  "writable sock = 0 \<Longrightarrow> store_chunk md5 cid n sock dn = (DnError IOError, sock, dn)"
  by (simp add: store_chunk_def sendall_def reply_error_def)

text \<open>What \<open>store_chunk\<close> does once the READY token is sent, in terms of the receive loop.\<close>

lemma store_chunk_after_ready:
  assumes "0 < writable sock"
  obtains sock2 where
    "receive_loop n [] (sock\<lparr>writable := writable sock - 1, sent := sent sock @ [Raw ready_token]\<rparr>) =
       (if ending sock = Reset \<and> int (length (concat (incoming sock))) < n then Inl IOError
        else Inr (take (nat n) (concat (incoming sock))), sock2)"
    and "writable sock2 = writable sock - 1" and "sent sock2 = sent sock @ [Raw ready_token]"
    and "sendall (Raw ready_token) sock =
       Inr (sock\<lparr>writable := writable sock - 1, sent := sent sock @ [Raw ready_token]\<rparr>)"
proof -
  let ?s1 = "sock\<lparr>writable := writable sock - 1, sent := sent sock @ [Raw ready_token]\<rparr>"
  have s1: "sendall (Raw ready_token) sock = Inr ?s1" using assms by (simp add: sendall_def)
  from receive_loop_result [of n ?s1] obtain sock2
    where r: "receive_loop n [] ?s1 =
       (if ending sock = Reset \<and> int (length (concat (incoming sock))) < n then Inl IOError
        else Inr (take (nat n) (concat (incoming sock))), sock2)"
      and w: "writable sock2 = writable sock - 1" and s: "sent sock2 = sent sock @ [Raw ready_token]"
    by auto
  show ?thesis by (rule that [OF r w s s1])
qed

lemma store_chunk_recv_error:
  assumes "0 < writable sock" "ending sock = Reset" "int (length (concat (incoming sock))) < n"
  shows "\<exists>sock'. store_chunk md5 cid n sock dn = (DnError IOError, sock', dn)
           \<and> (1 < writable sock \<longrightarrow> sent sock' = sent sock @ [Raw ready_token, Reply (DnError IOError)])"
proof -
  obtain sock2 where r: "receive_loop n []
        (sock\<lparr>writable := writable sock - 1, sent := sent sock @ [Raw ready_token]\<rparr>) =
       (if ending sock = Reset \<and> int (length (concat (incoming sock))) < n then Inl IOError
        else Inr (take (nat n) (concat (incoming sock))), sock2)"
    and w: "writable sock2 = writable sock - 1" "sent sock2 = sent sock @ [Raw ready_token]"
    and s1: "sendall (Raw ready_token) sock =
       Inr (sock\<lparr>writable := writable sock - 1, sent := sent sock @ [Raw ready_token]\<rparr>)"
    by (rule store_chunk_after_ready [OF assms(1), of n])
  show ?thesis
    using s1 r w assms(2,3) by (auto simp: store_chunk_def reply_error_def sendall_def)
qed

lemma store_chunk_open_fails:
  assumes "0 < writable sock"
    and "\<not> (ending sock = Reset \<and> int (length (concat (incoming sock))) < n)"
    and "in_subdirectory cid \<or> disk dn cid = OpenFails"
  shows "\<exists>sock'. store_chunk md5 cid n sock dn = (DnError IOError, sock', dn)
           \<and> (1 < writable sock \<longrightarrow> sent sock' = sent sock @ [Raw ready_token, Reply (DnError IOError)])"
proof -
  obtain sock2 where r: "receive_loop n []
        (sock\<lparr>writable := writable sock - 1, sent := sent sock @ [Raw ready_token]\<rparr>) =
       (if ending sock = Reset \<and> int (length (concat (incoming sock))) < n then Inl IOError
        else Inr (take (nat n) (concat (incoming sock))), sock2)"
    and w: "writable sock2 = writable sock - 1" "sent sock2 = sent sock @ [Raw ready_token]"
    and s1: "sendall (Raw ready_token) sock =
       Inr (sock\<lparr>writable := writable sock - 1, sent := sent sock @ [Raw ready_token]\<rparr>)"
    by (rule store_chunk_after_ready [OF assms(1), of n])
  have wf: "write_file (disk dn cid) cid data (storage_dir dn) = (Some IOError, storage_dir dn)" for data
    using assms(3) by (auto simp: write_file_def)
  show ?thesis
    using s1 r w assms(2) wf
    by (auto simp: store_chunk_def reply_error_def sendall_def Let_def)
qed

lemma store_chunk_write_fails:
  assumes "0 < writable sock"
    and "\<not> (ending sock = Reset \<and> int (length (concat (incoming sock))) < n)"
    and "\<not> in_subdirectory cid" and "disk dn cid = WriteFails k"
  shows "\<exists>sock'. store_chunk md5 cid n sock dn =
           (DnError IOError, sock',
            dn\<lparr>storage_dir :=
                 AList.update cid (take k (take (nat n) (concat (incoming sock)))) (storage_dir dn)\<rparr>)
           \<and> (1 < writable sock \<longrightarrow> sent sock' = sent sock @ [Raw ready_token, Reply (DnError IOError)])"
proof -
  obtain sock2 where r: "receive_loop n []
        (sock\<lparr>writable := writable sock - 1, sent := sent sock @ [Raw ready_token]\<rparr>) =
       (if ending sock = Reset \<and> int (length (concat (incoming sock))) < n then Inl IOError
        else Inr (take (nat n) (concat (incoming sock))), sock2)"
    and w: "writable sock2 = writable sock - 1" "sent sock2 = sent sock @ [Raw ready_token]"
    and s1: "sendall (Raw ready_token) sock =
       Inr (sock\<lparr>writable := writable sock - 1, sent := sent sock @ [Raw ready_token]\<rparr>)"
    by (rule store_chunk_after_ready [OF assms(1), of n])
  have wf: "write_file (disk dn cid) cid data (storage_dir dn) =
      (Some IOError, AList.update cid (take k data) (storage_dir dn))" for data
    using assms(3,4) by (simp add: write_file_def)
  show ?thesis
    using s1 r w assms(2) wf
    by (auto simp: store_chunk_def reply_error_def sendall_def Let_def)
qed

lemma store_chunk_stored:
  assumes "1 < writable sock"
    and "\<not> (ending sock = Reset \<and> int (length (concat (incoming sock))) < n)"
    and "\<not> in_subdirectory cid" and "disk dn cid = DiskOk"
  shows "\<exists>sock'. store_chunk md5 cid n sock dn =
           (StoreOk cid (length (take (nat n) (concat (incoming sock))))
              (md5 (take (nat n) (concat (incoming sock)))), sock',
            dn\<lparr>storage_dir := AList.update cid (take (nat n) (concat (incoming sock))) (storage_dir dn),
               self_chunks := AList.update cid cid (self_chunks dn)\<rparr>)
         \<and> sent sock' = sent sock @ [Raw ready_token,
              Reply (StoreOk cid (length (take (nat n) (concat (incoming sock))))
                       (md5 (take (nat n) (concat (incoming sock)))))]"
proof -
  from assms(1) have w0: "0 < writable sock" by simp
  obtain sock2 where r: "receive_loop n []
        (sock\<lparr>writable := writable sock - 1, sent := sent sock @ [Raw ready_token]\<rparr>) =
       (if ending sock = Reset \<and> int (length (concat (incoming sock))) < n then Inl IOError
        else Inr (take (nat n) (concat (incoming sock))), sock2)"
    and w: "writable sock2 = writable sock - 1" "sent sock2 = sent sock @ [Raw ready_token]"
    and s1: "sendall (Raw ready_token) sock =
       Inr (sock\<lparr>writable := writable sock - 1, sent := sent sock @ [Raw ready_token]\<rparr>)"
    by (rule store_chunk_after_ready [OF w0, of n])
  have wf: "write_file (disk dn cid) cid data (storage_dir dn) =
      (None, AList.update cid data (storage_dir dn))" for data
    using assms(3,4) by (simp add: write_file_def)
  show ?thesis
    using s1 r w assms(1,2) wf
    by (auto simp: store_chunk_def sendall_def Let_def)
qed

text \<open>
  C6 as stated does not hold, in two ways. A connection that is closed after 2 of the 4
  announced bytes is no error for \<open>store_chunk\<close>: the loop ends on the empty \<open>recv\<close>, the
  2 bytes replace the 4 bytes that were stored under the chunk id and the response is a
  success with size 2. And when the 4 bytes arrive but the write fails after one byte, the
  client is sent an error, yet the file of the chunk, which \<open>open\<close> has truncated, is
  left with that one byte and is still listed in \<open>self.chunks\<close>. (The function given for
  \<open>md5\<close> plays no role.)
\<close>

theorem store_chunk_short_counterexample:
  "int (length (concat (incoming short_sock))) < 4
   \<and> map_of (storage_dir demo_node) ''chunk_f.bin_0'' = Some [9, 9, 9, 9]
   \<and> fst (store_chunk (\<lambda>b. []) ''chunk_f.bin_0'' 4 short_sock demo_node) = StoreOk ''chunk_f.bin_0'' 2 []
   \<and> storage_dir (snd (snd (store_chunk (\<lambda>b. []) ''chunk_f.bin_0'' 4 short_sock demo_node)))
       = [(''chunk_f.bin_0'', [1, 2])]
   \<and> disk full_disk_node ''chunk_f.bin_0'' = WriteFails 1
   \<and> fst (store_chunk (\<lambda>b. []) ''chunk_f.bin_0'' 4 full_sock full_disk_node) = DnError IOError
   \<and> storage_dir (snd (snd (store_chunk (\<lambda>b. []) ''chunk_f.bin_0'' 4 full_sock full_disk_node)))
       = [(''chunk_f.bin_0'', [1])]
   \<and> self_chunks (snd (snd (store_chunk (\<lambda>b. []) ''chunk_f.bin_0'' 4 full_sock full_disk_node)))
       = [(''chunk_f.bin_0'', ''chunk_f.bin_0'')]"
proof -
  have ns: "\<not> in_subdirectory ''chunk_f.bin_0''" by (simp add: in_subdirectory_def)
  have p: "concat (incoming short_sock) = [1, 2]" and w: "1 < writable short_sock"
    and e: "\<not> (ending short_sock = Reset \<and> int (length (concat (incoming short_sock))) < 4)"
    by (simp_all add: short_sock_def)
  have l: "int (length (concat (incoming short_sock))) < 4" by (simp add: p)
  have d: "disk demo_node ''chunk_f.bin_0'' = DiskOk" by (simp add: demo_node_def)
  have o: "map_of (storage_dir demo_node) ''chunk_f.bin_0'' = Some [9, 9, 9, 9]"
    by (simp add: demo_node_def)
  from store_chunk_stored [OF w e ns d, of "\<lambda>b. []"] obtain sock'
    where "store_chunk (\<lambda>b. []) ''chunk_f.bin_0'' 4 short_sock demo_node =
      (StoreOk ''chunk_f.bin_0'' 2 [], sock',
       demo_node\<lparr>storage_dir := AList.update ''chunk_f.bin_0'' [1, 2] (storage_dir demo_node),
          self_chunks := AList.update ''chunk_f.bin_0'' ''chunk_f.bin_0'' (self_chunks demo_node)\<rparr>)"
    by (auto simp: p)
  then have a: "fst (store_chunk (\<lambda>b. []) ''chunk_f.bin_0'' 4 short_sock demo_node) = StoreOk ''chunk_f.bin_0'' 2 []"
    and b: "storage_dir (snd (snd (store_chunk (\<lambda>b. []) ''chunk_f.bin_0'' 4 short_sock demo_node)))
       = [(''chunk_f.bin_0'', [1, 2])]"
    by (simp_all add: demo_node_def)
  have p': "concat (incoming full_sock) = [1, 2, 3, 4]" and w': "0 < writable full_sock"
    and e': "\<not> (ending full_sock = Reset \<and> int (length (concat (incoming full_sock))) < 4)"
    by (simp_all add: full_sock_def)
  have d': "disk full_disk_node ''chunk_f.bin_0'' = WriteFails 1" by (simp add: full_disk_node_def)
  from store_chunk_write_fails [OF w' e' ns d', of "\<lambda>b. []"] obtain sock''
    where "store_chunk (\<lambda>b. []) ''chunk_f.bin_0'' 4 full_sock full_disk_node =
      (DnError IOError, sock'',
       full_disk_node\<lparr>storage_dir := AList.update ''chunk_f.bin_0'' [1] (storage_dir full_disk_node)\<rparr>)"
    by (auto simp: p')
  then have c: "fst (store_chunk (\<lambda>b. []) ''chunk_f.bin_0'' 4 full_sock full_disk_node) = DnError IOError"
    and f: "storage_dir (snd (snd (store_chunk (\<lambda>b. []) ''chunk_f.bin_0'' 4 full_sock full_disk_node)))
       = [(''chunk_f.bin_0'', [1])]"
    and g: "self_chunks (snd (snd (store_chunk (\<lambda>b. []) ''chunk_f.bin_0'' 4 full_sock full_disk_node)))
       = [(''chunk_f.bin_0'', ''chunk_f.bin_0'')]"
    by (simp_all add: full_disk_node_def demo_node_def)
  from l o a b d' c f g show ?thesis by (intro conjI)
qed

text \<open>
  C6, amended: when the READY token cannot be sent, when the connection breaks (\<open>recv\<close>
  raises) before the announced number of bytes has arrived, or when the file of the chunk
  cannot be opened for writing, \<open>store_chunk\<close> returns an error response and the DataNode,
  its files and \<open>self.chunks\<close>, is as before the request; the error response is also sent
  to the client when the connection still takes a \<open>sendall\<close>. When the file is opened and
  the write then fails after \<open>k\<close> bytes, the response is an error as well and
  \<open>self.chunks\<close> is as before, but the file of the chunk holds the first \<open>k\<close> of the
  bytes received.
\<close>

theorem store_chunk_io_error:
  "(writable sock = 0 \<longrightarrow> store_chunk md5 cid n sock dn = (DnError IOError, sock, dn))
   \<and> (0 < writable sock \<and> ending sock = Reset \<and> int (length (concat (incoming sock))) < n \<longrightarrow>
        (\<exists>sock'. store_chunk md5 cid n sock dn = (DnError IOError, sock', dn)
           \<and> (1 < writable sock \<longrightarrow>
                sent sock' = sent sock @ [Raw ready_token, Reply (DnError IOError)])))
   \<and> (0 < writable sock \<and> \<not> (ending sock = Reset \<and> int (length (concat (incoming sock))) < n)
        \<and> (in_subdirectory cid \<or> disk dn cid = OpenFails) \<longrightarrow>
        (\<exists>sock'. store_chunk md5 cid n sock dn = (DnError IOError, sock', dn)
           \<and> (1 < writable sock \<longrightarrow>
                sent sock' = sent sock @ [Raw ready_token, Reply (DnError IOError)])))
   \<and> (\<forall>k. 0 < writable sock \<and> \<not> (ending sock = Reset \<and> int (length (concat (incoming sock))) < n)
        \<and> \<not> in_subdirectory cid \<and> disk dn cid = WriteFails k \<longrightarrow>
        (\<exists>sock'. store_chunk md5 cid n sock dn =
             (DnError IOError, sock',
              dn\<lparr>storage_dir :=
                   AList.update cid (take k (take (nat n) (concat (incoming sock)))) (storage_dir dn)\<rparr>)
           \<and> (1 < writable sock \<longrightarrow>
                sent sock' = sent sock @ [Raw ready_token, Reply (DnError IOError)])))"
proof (intro conjI allI impI)
  assume "writable sock = 0"
  then show "store_chunk md5 cid n sock dn = (DnError IOError, sock, dn)"
    by (rule store_chunk_ready_fails)
next
  assume "0 < writable sock \<and> ending sock = Reset \<and> int (length (concat (incoming sock))) < n"
  then show "\<exists>sock'. store_chunk md5 cid n sock dn = (DnError IOError, sock', dn)
           \<and> (1 < writable sock \<longrightarrow>
                sent sock' = sent sock @ [Raw ready_token, Reply (DnError IOError)])"
    by (intro store_chunk_recv_error) simp_all
next
  assume "0 < writable sock \<and> \<not> (ending sock = Reset \<and> int (length (concat (incoming sock))) < n)
        \<and> (in_subdirectory cid \<or> disk dn cid = OpenFails)"
  then show "\<exists>sock'. store_chunk md5 cid n sock dn = (DnError IOError, sock', dn)
           \<and> (1 < writable sock \<longrightarrow>
                sent sock' = sent sock @ [Raw ready_token, Reply (DnError IOError)])"
    by (intro store_chunk_open_fails) simp_all
next
  fix k
  assume "0 < writable sock \<and> \<not> (ending sock = Reset \<and> int (length (concat (incoming sock))) < n)
        \<and> \<not> in_subdirectory cid \<and> disk dn cid = WriteFails k"
  then show "\<exists>sock'. store_chunk md5 cid n sock dn =
             (DnError IOError, sock',
              dn\<lparr>storage_dir :=
                   AList.update cid (take k (take (nat n) (concat (incoming sock)))) (storage_dir dn)\<rparr>)
           \<and> (1 < writable sock \<longrightarrow>
                sent sock' = sent sock @ [Raw ready_token, Reply (DnError IOError)])"
    by (intro store_chunk_write_fails) simp_all
qed

theorem store_chunk_io_error_witness:
  "writable (broken_sock\<lparr>writable := 0\<rparr>) = 0
   \<and> store_chunk (\<lambda>b. []) ''chunk_f.bin_0'' 4 (broken_sock\<lparr>writable := 0\<rparr>) demo_node
       = (DnError IOError, broken_sock\<lparr>writable := 0\<rparr>, demo_node)
   \<and> 0 < writable broken_sock \<and> ending broken_sock = Reset
   \<and> int (length (concat (incoming broken_sock))) < 4
   \<and> fst (store_chunk (\<lambda>b. []) ''chunk_f.bin_0'' 4 broken_sock demo_node) = DnError IOError
   \<and> snd (snd (store_chunk (\<lambda>b. []) ''chunk_f.bin_0'' 4 broken_sock demo_node)) = demo_node
   \<and> 0 < writable full_sock \<and> ending full_sock = Eof
   \<and> disk read_only_node ''chunk_f.bin_0'' = OpenFails
   \<and> fst (store_chunk (\<lambda>b. []) ''chunk_f.bin_0'' 4 full_sock read_only_node) = DnError IOError
   \<and> snd (snd (store_chunk (\<lambda>b. []) ''chunk_f.bin_0'' 4 full_sock read_only_node)) = read_only_node
   \<and> in_subdirectory ''chunk_d/f.bin_0''
   \<and> fst (store_chunk (\<lambda>b. []) ''chunk_d/f.bin_0'' 4 full_sock demo_node) = DnError IOError
   \<and> snd (snd (store_chunk (\<lambda>b. []) ''chunk_d/f.bin_0'' 4 full_sock demo_node)) = demo_node
   \<and> \<not> in_subdirectory ''chunk_f.bin_0'' \<and> disk full_disk_node ''chunk_f.bin_0'' = WriteFails 1
   \<and> fst (store_chunk (\<lambda>b. []) ''chunk_f.bin_0'' 4 full_sock full_disk_node) = DnError IOError
   \<and> snd (snd (store_chunk (\<lambda>b. []) ''chunk_f.bin_0'' 4 full_sock full_disk_node))
       = full_disk_node\<lparr>storage_dir := [(''chunk_f.bin_0'', [1])]\<rparr>"
proof -
  note w = store_chunk_io_error [where ?md5.0 = "\<lambda>b. []" and n = 4]
  have h0: "writable (broken_sock\<lparr>writable := 0\<rparr>) = 0" by simp
  from w [of "broken_sock\<lparr>writable := 0\<rparr>" "''chunk_f.bin_0''" demo_node] h0
  have a: "store_chunk (\<lambda>b. []) ''chunk_f.bin_0'' 4 (broken_sock\<lparr>writable := 0\<rparr>) demo_node
       = (DnError IOError, broken_sock\<lparr>writable := 0\<rparr>, demo_node)"
    by blast
  have h1: "0 < writable broken_sock" "ending broken_sock = Reset"
    "int (length (concat (incoming broken_sock))) < 4"
    by (simp_all add: broken_sock_def)
  from w [of broken_sock "''chunk_f.bin_0''" demo_node] h1 obtain s1
    where "store_chunk (\<lambda>b. []) ''chunk_f.bin_0'' 4 broken_sock demo_node = (DnError IOError, s1, demo_node)"
    by blast
  then have b: "fst (store_chunk (\<lambda>b. []) ''chunk_f.bin_0'' 4 broken_sock demo_node) = DnError IOError"
    "snd (snd (store_chunk (\<lambda>b. []) ''chunk_f.bin_0'' 4 broken_sock demo_node)) = demo_node"
    by simp_all
  have h2: "0 < writable full_sock" "ending full_sock = Eof"
    and h2': "\<not> (ending full_sock = Reset \<and> int (length (concat (incoming full_sock))) < 4)"
    by (simp_all add: full_sock_def)
  have ro: "disk read_only_node ''chunk_f.bin_0'' = OpenFails" by (simp add: read_only_node_def)
  from w [of full_sock "''chunk_f.bin_0''" read_only_node] h2(1) h2' ro obtain s2
    where "store_chunk (\<lambda>b. []) ''chunk_f.bin_0'' 4 full_sock read_only_node =
        (DnError IOError, s2, read_only_node)"
    by blast
  then have c: "fst (store_chunk (\<lambda>b. []) ''chunk_f.bin_0'' 4 full_sock read_only_node) = DnError IOError"
    "snd (snd (store_chunk (\<lambda>b. []) ''chunk_f.bin_0'' 4 full_sock read_only_node)) = read_only_node"
    by simp_all
  have sub: "in_subdirectory ''chunk_d/f.bin_0''" by (simp add: in_subdirectory_def)
  from w [of full_sock "''chunk_d/f.bin_0''" demo_node] h2(1) h2' sub obtain s3
    where "store_chunk (\<lambda>b. []) ''chunk_d/f.bin_0'' 4 full_sock demo_node = (DnError IOError, s3, demo_node)"
    by blast
  then have d: "fst (store_chunk (\<lambda>b. []) ''chunk_d/f.bin_0'' 4 full_sock demo_node) = DnError IOError"
    "snd (snd (store_chunk (\<lambda>b. []) ''chunk_d/f.bin_0'' 4 full_sock demo_node)) = demo_node"
    by simp_all
  have ns: "\<not> in_subdirectory ''chunk_f.bin_0''" by (simp add: in_subdirectory_def)
  have fd: "disk full_disk_node ''chunk_f.bin_0'' = WriteFails 1" by (simp add: full_disk_node_def)
  have p: "concat (incoming full_sock) = [1, 2, 3, 4]" by (simp add: full_sock_def)
  from w [of full_sock "''chunk_f.bin_0''" full_disk_node] h2(1) h2' ns fd obtain s4
    where "store_chunk (\<lambda>b. []) ''chunk_f.bin_0'' 4 full_sock full_disk_node =
        (DnError IOError, s4,
         full_disk_node\<lparr>storage_dir := AList.update ''chunk_f.bin_0''
            (take 1 (take (nat 4) (concat (incoming full_sock)))) (storage_dir full_disk_node)\<rparr>)"
    by blast
  then have e: "fst (store_chunk (\<lambda>b. []) ''chunk_f.bin_0'' 4 full_sock full_disk_node) = DnError IOError"
    "snd (snd (store_chunk (\<lambda>b. []) ''chunk_f.bin_0'' 4 full_sock full_disk_node))
       = full_disk_node\<lparr>storage_dir := [(''chunk_f.bin_0'', [1])]\<rparr>"
    by (simp_all add: p full_disk_node_def demo_node_def)
  from h0 a h1 b h2 ro c sub d ns fd e show ?thesis by (intro conjI)
qed


section \<open>Upload followed by download\<close>

subsection \<open>Chunk names\<close>












subsection \<open>Requests to the NameNode\<close>







subsection \<open>One chunk on one DataNode\<close>





lemma retrieve_chunk_from_datanode_None:
  "fl (h, p) = None \<Longrightarrow> retrieve_chunk_from_datanode fl h p cid = None"
  by (simp add: retrieve_chunk_from_datanode_def)

subsection \<open>One chunk on its assigned DataNodes\<close>






subsection \<open>The upload loop\<close>



subsection \<open>The file record installed by upload_complete\<close>








subsection \<open>The download loop\<close>








subsection \<open>Splitting a file into chunks\<close>




subsection \<open>The assignment of a successful upload_init\<close>











subsection \<open>The state after a successful upload\<close>




subsection \<open>Download after a successful upload\<close>






lemma healthy_nodes_of_record:
  "map_of (datanodes s) nid = Some nd \<Longrightarrow> is_healthy now nd \<Longrightarrow> nd \<in> set (healthy_nodes now s)"
  by (force simp: healthy_nodes_def dest!: map_of_SomeD)


subsection \<open>When the upload and the download succeed\<close>



subsection \<open>The length of an upload_init response\<close>











end
